theory Spec2Isabelle
  imports Main "HOL-Library.Word"
begin

section \<open>Python values, exceptions and the pickle interface\<close>

text \<open>
  The module \<^verbatim>\<open>hupper/ipc.py\<close> moves pickled Python objects over OS pipes. The objects
  the code itself builds or inspects are \<^verbatim>\<open>None\<close>, strings, lists and dicts (the
  bootstrap packet is \<^verbatim>\<open>[{'sys.argv': sys.argv}, spec, kwargs]\<close>); integers are kept
  as a further scalar. A dict is an association list, looked up with \<open>map_of\<close>.
\<close>

type_synonym byte = "8 word"

datatype pyval =
    PyNone
  | PyInt int
  | PyStr string
  | PyList "pyval list"
  | PyDict "(pyval \<times> pyval) list"

text \<open>
  Exceptions are values. \<open>IOError\<close> carries its message, \<open>OSError\<close> the value of its
  \<^verbatim>\<open>winerror\<close> attribute (\<open>None\<close> when the attribute holds \<^verbatim>\<open>None\<close>), \<open>SystemExit\<close>
  the exit status, \<open>OtherError\<close> any exception of a class the module never names.
\<close>

datatype exn =
    EOFError
  | IOError string
  | StructError
  | OSError "int option"
  | TypeError
  | ValueError
  | AttributeError
  | ImportError
  | PicklingError
  | UnpicklingError
  | BrokenPipeError
  | OverflowError
  | MemoryError
  | QueueEmpty
  | SystemExit int
  | OtherError string

text \<open>
  \<^verbatim>\<open>sys.byteorder\<close>: the format \<^verbatim>\<open>'Q'\<close> of \<^verbatim>\<open>struct\<close> has no byte-order prefix, so
  it uses the byte order of the machine.
\<close>

datatype byteorder = Little | Big

text \<open>
  The \<^verbatim>\<open>pickle\<close> module is a library the code calls; it is a parameter of the model.
  \<open>dumps\<close> and \<open>loads\<close> are \<^verbatim>\<open>pickle.dumps\<close> and \<^verbatim>\<open>pickle.loads\<close>; \<open>load\<close> is
  \<^verbatim>\<open>pickle.load\<close> applied to a stream holding the given bytes before its end.
  \<open>alloc_limit\<close> measures the memory of the process: a bytes object of \<open>n\<close> bytes can be
  allocated when \<open>n \<le> 8 + alloc_limit\<close>, so the eight bytes of a length prefix always
  can.
\<close>

record env =
  sys_byteorder :: byteorder
  alloc_limit :: nat
  dumps :: "pyval \<Rightarrow> exn + byte list"
  loads :: "byte list \<Rightarrow> exn + pyval"
  load :: "byte list \<Rightarrow> exn + pyval"

section \<open>Framing: \<^verbatim>\<open>struct.pack('Q', n)\<close> and \<^verbatim>\<open>struct.unpack('Q', chunk)\<close>\<close>

fun le_bytes :: "nat \<Rightarrow> nat \<Rightarrow> byte list" where
  "le_bytes 0 n = []"
| "le_bytes (Suc k) n = word_of_nat (n mod 256) # le_bytes k (n div 256)"

fun le_val :: "byte list \<Rightarrow> nat" where
  "le_val [] = 0"
| "le_val (b # bs) = unat b + 256 * le_val bs"

text \<open>
  \<^verbatim>\<open>struct.pack('Q', n)\<close>: eight bytes in machine order; \<^verbatim>\<open>struct.error\<close> when \<open>n\<close>
  does not fit an unsigned 64-bit integer.
\<close>

definition struct_pack_Q :: "byteorder \<Rightarrow> nat \<Rightarrow> exn + byte list" where
  "struct_pack_Q bo n =
     (if n < 2 ^ 64
      then Inr (case bo of Little \<Rightarrow> le_bytes 8 n | Big \<Rightarrow> rev (le_bytes 8 n))
      else Inl StructError)"

text \<open>
  \<^verbatim>\<open>struct.unpack('Q', chunk)[0]\<close>: \<^verbatim>\<open>struct.error\<close> unless the buffer holds exactly
  eight bytes.
\<close>

definition struct_unpack_Q :: "byteorder \<Rightarrow> byte list \<Rightarrow> exn + nat" where
  "struct_unpack_Q bo chunk =
     (if length chunk = 8
      then Inr (le_val (case bo of Little \<Rightarrow> chunk | Big \<Rightarrow> rev chunk))
      else Inl StructError)"

section \<open>The inbound stream\<close>

text \<open>
  \<^verbatim>\<open>self.r\<close> is the buffered reader \<^verbatim>\<open>os.fdopen(self.r_fd, 'rb')\<close> over a blocking pipe.
  The model of the stream is the list of bytes that arrive before the peer closes its
  end. \<^verbatim>\<open>self.r.read(n)\<close> first allocates the bytes object of its result, of \<open>n\<close> bytes,
  whatever the stream holds. On a 64-bit CPython 3 a bytes object has at most
  \<open>2 ^ 63 - 34\<close> bytes (\<^verbatim>\<open>sys.maxsize\<close> less the 33 bytes of the object header), and a
  longer request raises \<^verbatim>\<open>OverflowError\<close>; a request within this bound that the memory
  of the process cannot meet raises \<^verbatim>\<open>MemoryError\<close>. Otherwise the call blocks until
  \<open>n\<close> bytes have arrived or the stream has ended, so it returns the next \<open>n\<close> bytes, or
  all the remaining ones when fewer are left, and the empty bytes object at the end of
  the stream.
\<close>

definition readable :: "env \<Rightarrow> nat \<Rightarrow> bool" where
  "readable e n = (n < 2 ^ 63 - 33 \<and> n \<le> 8 + alloc_limit e)"

definition read :: "env \<Rightarrow> nat \<Rightarrow> byte list \<Rightarrow> exn + (byte list \<times> byte list)" where
  "read e n s =
     (if 2 ^ 63 - 33 \<le> n then Inl OverflowError
      else if 8 + alloc_limit e < n then Inl MemoryError
      else Inr (take n s, drop n s))"

text \<open>
  The \<^verbatim>\<open>while remaining > 0\<close> loop of \<^verbatim>\<open>Connection._recv_packet\<close>, with \<open>buf\<close> the
  contents of the \<^verbatim>\<open>BytesIO\<close> buffer and \<open>sz\<close> the source's \<^verbatim>\<open>size\<close>. It returns the
  buffer and the rest of the stream.
\<close>

function recv_payload ::
  "env \<Rightarrow> nat \<Rightarrow> nat \<Rightarrow> byte list \<Rightarrow> byte list \<Rightarrow> exn + (byte list \<times> byte list)" where
  "recv_payload e sz remaining buf s =
     (if remaining > 0 then
        (case read e remaining s of
           Inl ex \<Rightarrow> Inl ex
         | Inr (chunk, s') \<Rightarrow>
             (if length chunk = 0 then
                (if remaining = sz then Inl EOFError
                 else Inl (IOError ''got end of file during message''))
              else recv_payload e sz (remaining - length chunk) (buf @ chunk) s'))
      else Inr (buf, s))"
  by pat_completeness auto
termination
  by (relation "measure (\<lambda>(e, sz, remaining, buf, s). remaining)") auto

text \<open>
  \<^verbatim>\<open>Connection._recv_packet\<close>. The plain \<^verbatim>\<open>return\<close> after an empty first read returns
  \<^verbatim>\<open>None\<close>. The result is the packet and the rest of the stream.
\<close>

definition recv_packet :: "env \<Rightarrow> byte list \<Rightarrow> exn + (pyval \<times> byte list)" where
  "recv_packet e s =
     (case read e 8 s of
        Inl ex \<Rightarrow> Inl ex
      | Inr (chunk, s1) \<Rightarrow>
          if chunk = [] then Inr (PyNone, s1)
          else (case struct_unpack_Q (sys_byteorder e) chunk of
                  Inl ex \<Rightarrow> Inl ex
                | Inr sz \<Rightarrow>
                    (case recv_payload e sz sz [] s1 of
                       Inl ex \<Rightarrow> Inl ex
                     | Inr (buf, s2) \<Rightarrow>
                         (case loads e buf of
                            Inl ex \<Rightarrow> Inl ex
                          | Inr v \<Rightarrow> Inr (v, s2)))))"

text \<open>
  \<^verbatim>\<open>Connection._read_loop\<close>, the body of the reader thread, from the contents \<open>q\<close> of
  \<^verbatim>\<open>self.reader_queue\<close> and the inbound stream \<open>s\<close>. The thread ends either by leaving
  the \<^verbatim>\<open>try\<close> statement (by \<^verbatim>\<open>break\<close>, or by the handler of \<^verbatim>\<open>EOFError\<close>) and
  putting \<^verbatim>\<open>None\<close> on the queue, or by an exception that no handler catches, which
  skips the final \<^verbatim>\<open>put\<close>.
\<close>

datatype thread_exit = Finished | Died exn

function read_loop :: "env \<Rightarrow> pyval list \<Rightarrow> byte list \<Rightarrow> thread_exit \<times> pyval list" where
  "read_loop e q s =
     (case recv_packet e s of
        Inl ex \<Rightarrow> (if ex = EOFError then (Finished, q @ [PyNone]) else (Died ex, q))
      | Inr (packet, s') \<Rightarrow>
          (if packet = PyNone then (Finished, q @ [PyNone])
           else read_loop e (q @ [packet]) s'))"
  by pat_completeness auto
termination
proof (relation "measure (\<lambda>(e, q, s). length s)")
  show "wf (measure (\<lambda>(e, q, s). length s))"
    by simp
next
  fix e :: env and q :: "pyval list" and s s' :: "byte list" and x packet
  assume rp: "recv_packet e s = Inr x" and x: "(packet, s') = x" and nn: "packet \<noteq> PyNone"
  have payload: "length s2 \<le> length s1"
    if "recv_payload e' sz remaining buf s1 = Inr (buf', s2)"
    for e' sz remaining buf s1 buf' s2
    using that
  proof (induction e' sz remaining buf s1 rule: recv_payload.induct)
    case (1 e' sz remaining buf s)
    show ?case
    proof (cases "remaining > 0")
      case True
      with "1.prems" obtain chunk t where rd: "read e' remaining s = Inr (chunk, t)"
        by (subst (asm) recv_payload.simps) (auto split: sum.splits)
      then have t: "length t \<le> length s"
        by (auto simp: read_def split: if_splits)
      from True rd "1.prems" have ne: "length chunk \<noteq> 0"
        and "recv_payload e' sz (remaining - length chunk) (buf @ chunk) t = Inr (buf', s2)"
        by (subst (asm) recv_payload.simps, simp split: if_splits)+
      with "1.IH" [OF True rd refl ne] t show ?thesis
        by simp
    next
      case False
      with "1.prems" show ?thesis
        by simp
    qed
  qed
  from rp x nn have "length s' < length s"
    by (auto simp: recv_packet_def read_def struct_unpack_Q_def
        split: if_splits sum.splits prod.splits dest!: payload)
  then show "((e, q @ [packet], s'), (e, q, s)) \<in> measure (\<lambda>(e, q, s). length s)"
    by simp
qed

section \<open>The outbound stream and \<^verbatim>\<open>Connection.send\<close>\<close>

text \<open>
  \<^verbatim>\<open>self.w\<close> is the buffered writer \<^verbatim>\<open>os.fdopen(self.w_fd, 'wb')\<close>. Its model records the
  bytes written so far and whether the reading end of the pipe has been closed, in
  which case writing raises \<^verbatim>\<open>BrokenPipeError\<close>.
\<close>

record wfile =
  written :: "byte list"
  broken :: bool

definition w_write :: "byte list \<Rightarrow> wfile \<Rightarrow> exn + wfile" where
  "w_write bs w = (if broken w then Inl BrokenPipeError else Inr (w\<lparr>written := written w @ bs\<rparr>))"

definition w_flush :: "wfile \<Rightarrow> exn + wfile" where
  "w_flush w = (if broken w then Inl BrokenPipeError else Inr w)"

text \<open>
  \<^verbatim>\<open>Connection.send\<close>. The lock \<^verbatim>\<open>self.send_lock\<close> orders the writes of concurrent
  senders and has no effect on one call. The result is the returned number and the
  writer.
\<close>

definition send :: "env \<Rightarrow> wfile \<Rightarrow> pyval \<Rightarrow> exn + (nat \<times> wfile)" where
  "send e w val =
     (case dumps e val of
        Inl ex \<Rightarrow> Inl ex
      | Inr data \<Rightarrow>
          (case struct_pack_Q (sys_byteorder e) (length data) of
             Inl ex \<Rightarrow> Inl ex
           | Inr hdr \<Rightarrow>
               (case w_write hdr w of
                  Inl ex \<Rightarrow> Inl ex
                | Inr w1 \<Rightarrow>
                    (case w_write data w1 of
                       Inl ex \<Rightarrow> Inl ex
                     | Inr w2 \<Rightarrow>
                         (case w_flush w2 of
                            Inl ex \<Rightarrow> Inl ex
                          | Inr w3 \<Rightarrow> Inr (length data + 8, w3))))))"

text \<open>
  A peer that calls \<^verbatim>\<open>send\<close> for each value of a list, in order; \<open>written\<close> of the
  result is what it has put on the stream when it closes its end afterwards.
\<close>

fun send_all :: "env \<Rightarrow> wfile \<Rightarrow> pyval list \<Rightarrow> exn + wfile" where
  "send_all e w [] = Inr w"
| "send_all e w (v # vs) =
     (case send e w v of
        Inl ex \<Rightarrow> Inl ex
      | Inr (n, w1) \<Rightarrow> send_all e w1 vs)"

section \<open>\<^verbatim>\<open>Connection.recv\<close>\<close>

text \<open>
  \<^verbatim>\<open>Connection.recv\<close> is \<^verbatim>\<open>self.reader_queue.get(block=True, timeout=timeout)\<close>. The
  model is of a call made once the reader thread has ended, on the queue \<open>q\<close> that the
  thread left: nothing will be put on the queue any more, so a \<^verbatim>\<open>get\<close> without timeout
  on the empty queue waits for ever, and one with a timeout raises \<^verbatim>\<open>queue.Empty\<close> when
  the time is over. \<^verbatim>\<open>Queue.get\<close> rejects a negative timeout before it looks at the
  queue. The timeout is a number of seconds, here a whole number.
\<close>

datatype recv_result = Returned pyval | BlocksForever | Raised exn

definition recv :: "pyval list \<Rightarrow> int option \<Rightarrow> recv_result \<times> pyval list" where
  "recv q timeout =
     (case timeout of
        None \<Rightarrow>
          (case q of [] \<Rightarrow> (BlocksForever, []) | packet # q' \<Rightarrow> (Returned packet, q'))
      | Some t \<Rightarrow>
          (if t < 0 then (Raised ValueError, q)
           else (case q of [] \<Rightarrow> (Raised QueueEmpty, [])
                         | packet # q' \<Rightarrow> (Returned packet, q'))))"

text \<open>
  The outcomes of \<open>n\<close> calls of \<^verbatim>\<open>recv()\<close> without timeout, one after the other. A call
  that blocks never returns to its caller; a later call is then one of another thread.
\<close>

fun recv_times :: "nat \<Rightarrow> pyval list \<Rightarrow> recv_result list" where
  "recv_times 0 q = []"
| "recv_times (Suc n) q = (case recv q None of (r, q') \<Rightarrow> r # recv_times n q')"

section \<open>File descriptors and \<^verbatim>\<open>Pipe\<close>\<close>

text \<open>
  The part of the operating system that \<^verbatim>\<open>os.pipe\<close>, \<^verbatim>\<open>os.set_inheritable\<close>, writing and
  closing act on: the table of open descriptors with what each refers to, the
  descriptors marked inheritable, the bytes written into each pipe, the number of the
  next pipe, and the limit on descriptor numbers.
\<close>

type_synonym fd = nat

datatype endpoint = PipeRead nat | PipeWrite nat | OtherFile

record os_state =
  fds :: "(fd \<times> endpoint) list"
  inheritable :: "fd list"
  pipe_data :: "nat \<Rightarrow> byte list"
  next_pipe :: nat
  fd_limit :: nat

text \<open>
  A new descriptor is the lowest number that is not in use: \<open>free_from k n used\<close>
  searches upwards from \<open>n\<close>, at most \<open>k\<close> steps.
\<close>

fun free_from :: "nat \<Rightarrow> nat \<Rightarrow> nat list \<Rightarrow> nat" where
  "free_from 0 n used = n"
| "free_from (Suc k) n used = (if n \<in> set used then free_from k (Suc n) used else n)"

definition lowest_free :: "nat list \<Rightarrow> nat" where
  "lowest_free used = free_from (length used) 0 used"

text \<open>
  \<^verbatim>\<open>os.pipe()\<close>: two new descriptors, the read end and the write end of a new pipe, or
  \<^verbatim>\<open>OSError\<close> when the descriptor table is full.
\<close>

definition os_pipe :: "os_state \<Rightarrow> exn + ((fd \<times> fd) \<times> os_state)" where
  "os_pipe os =
     (let r = lowest_free (map fst (fds os));
          w = lowest_free (r # map fst (fds os));
          p = next_pipe os
      in if fd_limit os \<le> r \<or> fd_limit os \<le> w then Inl (OSError None)
         else Inr ((r, w),
                os\<lparr>fds := (w, PipeWrite p) # (r, PipeRead p) # fds os,
                   pipe_data := (pipe_data os)(p := []),
                   next_pipe := Suc p\<rparr>))"

text \<open>The class \<^verbatim>\<open>Connection\<close>: \<^verbatim>\<open>__init__\<close> stores its four arguments.\<close>

record connection =
  r_fd :: fd
  w_fd :: fd
  remote_r_fd :: fd
  remote_w_fd :: fd

definition Connection :: "fd \<Rightarrow> fd \<Rightarrow> fd \<Rightarrow> fd \<Rightarrow> connection" where
  "Connection r w remote_r remote_w =
     \<lparr>r_fd = r, w_fd = w, remote_r_fd = remote_r, remote_w_fd = remote_w\<rparr>"

definition Pipe :: "os_state \<Rightarrow> exn + ((connection \<times> connection) \<times> os_state)" where
  "Pipe os =
     (case os_pipe os of
        Inl ex \<Rightarrow> Inl ex
      | Inr ((c2pr_fd, c2pw_fd), os1) \<Rightarrow>
          (case os_pipe os1 of
             Inl ex \<Rightarrow> Inl ex
           | Inr ((p2cr_fd, p2cw_fd), os2) \<Rightarrow>
               Inr ((Connection c2pr_fd p2cw_fd p2cr_fd c2pw_fd,
                     Connection p2cr_fd c2pw_fd c2pr_fd p2cw_fd), os2)))"

section \<open>Terminal attributes (POSIX)\<close>

text \<open>
  A terminal has its attributes, of a type \<open>'a\<close> left open, and two queues: input
  received and not yet read, output written and not yet transmitted. \<open>ttys\<close> maps the
  descriptors that refer to a terminal to it; \<^verbatim>\<open>os.isatty\<close> is \<^verbatim>\<open>False\<close> on every
  other descriptor, open or not.
\<close>

record 'a tty =
  attrs :: 'a
  pending_input :: "byte list"
  pending_output :: "byte list"

type_synonym 'a ttys = "fd \<Rightarrow> 'a tty option"

definition isatty :: "'a ttys \<Rightarrow> fd \<Rightarrow> bool" where
  "isatty t fd = (t fd \<noteq> None)"

text \<open>
  \<^verbatim>\<open>termios.tcgetattr\<close>, \<^verbatim>\<open>termios.tcflush(fd, TCIOFLUSH)\<close> and
  \<^verbatim>\<open>termios.tcsetattr(fd, TCSANOW, state)\<close>; each raises \<^verbatim>\<open>termios.error\<close> on a
  descriptor that is no terminal.
\<close>

definition tcgetattr :: "'a ttys \<Rightarrow> fd \<Rightarrow> exn + 'a" where
  "tcgetattr t fd = (case t fd of None \<Rightarrow> Inl (OtherError ''termios.error'') | Some y \<Rightarrow> Inr (attrs y))"

definition tcflush :: "'a ttys \<Rightarrow> fd \<Rightarrow> exn + 'a ttys" where
  "tcflush t fd =
     (case t fd of
        None \<Rightarrow> Inl (OtherError ''termios.error'')
      | Some y \<Rightarrow> Inr (t(fd \<mapsto> y\<lparr>pending_input := [], pending_output := []\<rparr>)))"

definition tcsetattr :: "'a ttys \<Rightarrow> fd \<Rightarrow> 'a \<Rightarrow> exn + 'a ttys" where
  "tcsetattr t fd state =
     (case t fd of
        None \<Rightarrow> Inl (OtherError ''termios.error'')
      | Some y \<Rightarrow> Inr (t(fd \<mapsto> y\<lparr>attrs := state\<rparr>)))"

text \<open>
  \<^verbatim>\<open>snapshot_termios\<close> and \<^verbatim>\<open>restore_termios\<close> of the POSIX branch. A state is \<^verbatim>\<open>None\<close>
  (what \<^verbatim>\<open>snapshot_termios\<close> returns by falling off its end) or the list that
  \<^verbatim>\<open>tcgetattr\<close> made, which has seven entries and so is true in the test
  \<^verbatim>\<open>os.isatty(fd) and state\<close>.
\<close>

definition snapshot_termios :: "'a ttys \<Rightarrow> fd \<Rightarrow> exn + 'a option" where
  "snapshot_termios t fd =
     (if isatty t fd then
        (case tcgetattr t fd of Inl ex \<Rightarrow> Inl ex | Inr state \<Rightarrow> Inr (Some state))
      else Inr None)"

definition restore_termios :: "'a ttys \<Rightarrow> fd \<Rightarrow> 'a option \<Rightarrow> exn + 'a ttys" where
  "restore_termios t fd state =
     (if isatty t fd \<and> state \<noteq> None then
        (case tcflush t fd of
           Inl ex \<Rightarrow> Inl ex
         | Inr t1 \<Rightarrow> tcsetattr t1 fd (the state))
      else Inr t)"

section \<open>\<^verbatim>\<open>ProcessGroup.add_child\<close>\<close>

text \<open>
  On Windows \<^verbatim>\<open>add_child\<close> calls \<^verbatim>\<open>winapi.OpenProcess\<close> and
  \<^verbatim>\<open>winapi.AssignProcessToJobObject\<close>. What these do is decided by the operating
  system, so both are parameters of the model: each takes the state \<open>'w\<close> of the system
  and returns its result, or the exception it raises, with the new state.
\<close>

type_synonym pid = nat
type_synonym handle = nat

record 'w winapi =
  OpenProcess :: "pid \<Rightarrow> 'w \<Rightarrow> (exn + handle) \<times> 'w"
  AssignProcessToJobObject :: "handle \<Rightarrow> handle \<Rightarrow> 'w \<Rightarrow> (exn + pyval) \<times> 'w"

record process_group =
  h_job :: handle

text \<open>
  The clause \<^verbatim>\<open>except OSError as ex\<close> catches \<^verbatim>\<open>OSError\<close> and its subclasses, among the
  exceptions of the model \<^verbatim>\<open>IOError\<close> and \<^verbatim>\<open>BrokenPipeError\<close>. On Windows every such
  exception has the attribute \<^verbatim>\<open>winerror\<close>, which is \<^verbatim>\<open>None\<close> unless the exception was
  made from a Windows error code.
\<close>

fun is_OSError :: "exn \<Rightarrow> bool" where
  "is_OSError (OSError c) = True"
| "is_OSError (IOError m) = True"
| "is_OSError BrokenPipeError = True"
| "is_OSError ex = False"

fun winerror :: "exn \<Rightarrow> int option" where
  "winerror (OSError c) = c"
| "winerror ex = None"

definition win_add_child ::
  "'w winapi \<Rightarrow> process_group \<Rightarrow> pid \<Rightarrow> 'w \<Rightarrow> (exn + pyval) \<times> 'w" where
  "win_add_child api self pid w =
     (case OpenProcess api pid w of
        (Inl ex, w1) \<Rightarrow> (Inl ex, w1)
      | (Inr hp, w1) \<Rightarrow>
          (case AssignProcessToJobObject api (h_job self) hp w1 of
             (Inr res, w2) \<Rightarrow> (Inr res, w2)
           | (Inl ex, w2) \<Rightarrow>
               (if is_OSError ex then
                  (if winerror ex = Some 5 then (Inr PyNone, w2) else (Inl ex, w2))
                else (Inl ex, w2))))"

text \<open>The POSIX class has no state; its \<^verbatim>\<open>add_child\<close> is \<^verbatim>\<open>pass\<close>.\<close>

definition posix_add_child :: "pid \<Rightarrow> 'w \<Rightarrow> (exn + pyval) \<times> 'w" where
  "posix_add_child pid w = (Inr PyNone, w)"

section \<open>\<^verbatim>\<open>spawn\<close> and \<^verbatim>\<open>spawn_main\<close>\<close>

text \<open>The state of a process that the module reads and writes: \<^verbatim>\<open>sys.argv\<close>.\<close>

record proc =
  sys_argv :: pyval

definition get_preparation_data :: "'a proc_scheme \<Rightarrow> pyval" where
  "get_preparation_data p = PyDict [(PyStr ''sys.argv'', sys_argv p)]"

fun is_substring :: "string \<Rightarrow> string \<Rightarrow> bool" where
  "is_substring sub [] = (sub = [])"
| "is_substring sub (c # cs) = (take (length sub) (c # cs) = sub \<or> is_substring sub cs)"

text \<open>
  \<^verbatim>\<open>prepare(data)\<close>. The test \<^verbatim>\<open>'sys.argv' in data\<close> looks for a key of a dict, for an
  element of a list and for a substring of a string, and raises \<^verbatim>\<open>TypeError\<close> on
  \<^verbatim>\<open>None\<close> and on an integer; \<^verbatim>\<open>data['sys.argv']\<close> raises \<^verbatim>\<open>TypeError\<close> on a list and
  on a string.
\<close>

definition prepare :: "pyval \<Rightarrow> 'a proc_scheme \<Rightarrow> exn + 'a proc_scheme" where
  "prepare data p =
     (case data of
        PyDict kvs \<Rightarrow>
          (case map_of kvs (PyStr ''sys.argv'') of
             Some v \<Rightarrow> Inr (p\<lparr>sys_argv := v\<rparr>)
           | None \<Rightarrow> Inr p)
      | PyList xs \<Rightarrow> (if PyStr ''sys.argv'' \<in> set xs then Inl TypeError else Inr p)
      | PyStr cs \<Rightarrow> (if is_substring ''sys.argv'' cs then Inl TypeError else Inr p)
      | _ \<Rightarrow> Inl TypeError)"

text \<open>\<^verbatim>\<open>get_handle\<close> and \<^verbatim>\<open>open_handle\<close> of the POSIX branch.\<close>

definition get_handle :: "fd \<Rightarrow> handle" where
  "get_handle fd = fd"

definition open_handle :: "handle \<Rightarrow> string \<Rightarrow> fd" where
  "open_handle h mode = h"

text \<open>
  \<^verbatim>\<open>set_inheritable\<close>, on a Python that has \<^verbatim>\<open>os.get_inheritable\<close> (3.4 and later);
  \<^verbatim>\<open>os.get_inheritable\<close> raises \<^verbatim>\<open>OSError\<close> on a descriptor that is not open.
\<close>

definition set_inheritable :: "fd \<Rightarrow> os_state \<Rightarrow> exn + os_state" where
  "set_inheritable fd os =
     (if fd \<notin> set (map fst (fds os)) then Inl (OSError None)
      else if fd \<notin> set (inheritable os) then Inr (os\<lparr>inheritable := fd # inheritable os\<rparr>)
      else Inr os)"

fun set_inheritable_all :: "fd list \<Rightarrow> os_state \<Rightarrow> exn + os_state" where
  "set_inheritable_all [] os = Inr os"
| "set_inheritable_all (fd # rest) os =
     (case set_inheritable fd os of
        Inl ex \<Rightarrow> Inl ex
      | Inr os1 \<Rightarrow> set_inheritable_all rest os1)"

text \<open>
  Writing to the file object \<^verbatim>\<open>os.fdopen(w, 'wb')\<close> and closing it: the bytes go into
  the pipe that the descriptor writes, and the descriptor leaves the table.
\<close>

definition os_write :: "fd \<Rightarrow> byte list \<Rightarrow> os_state \<Rightarrow> exn + os_state" where
  "os_write fd data os =
     (case map_of (fds os) fd of
        Some (PipeWrite p) \<Rightarrow> Inr (os\<lparr>pipe_data := (pipe_data os)(p := pipe_data os p @ data)\<rparr>)
      | _ \<Rightarrow> Inl (OSError None))"

definition os_close :: "fd \<Rightarrow> os_state \<Rightarrow> exn + os_state" where
  "os_close fd os =
     (if fd \<in> set (map fst (fds os))
      then Inr (os\<lparr>fds := filter (\<lambda>(k, x). k \<noteq> fd) (fds os),
                   inheritable := filter (\<lambda>k. k \<noteq> fd) (inheritable os)\<rparr>)
      else Inl (OSError None))"

text \<open>
  \<^verbatim>\<open>spawn(spec, kwargs, pass_fds)\<close> in the process with state \<open>p\<close>. \<open>Popen\<close> stands for
  \<^verbatim>\<open>subprocess.Popen(get_command_line(pipe_handle=r_handle), close_fds=False)\<close>: it is
  given the handle that the command line carries, and returns the process or the
  exception of a failed launch. The result is the process and the state of the
  operating system, in which the bootstrap pipe holds what was written to it.
\<close>

definition spawn ::
  "env \<Rightarrow> (handle \<Rightarrow> os_state \<Rightarrow> exn + 'pr) \<Rightarrow> 'a proc_scheme \<Rightarrow> os_state
     \<Rightarrow> pyval \<Rightarrow> pyval \<Rightarrow> fd list \<Rightarrow> exn + ('pr \<times> os_state)" where
  "spawn e Popen p os spec kwargs pass_fds =
     (case os_pipe os of
        Inl ex \<Rightarrow> Inl ex
      | Inr ((r, w), os1) \<Rightarrow>
          (case set_inheritable_all ([r] @ pass_fds) os1 of
             Inl ex \<Rightarrow> Inl ex
           | Inr os2 \<Rightarrow>
               (let preparation_data = get_preparation_data p;
                    r_handle = get_handle r
                in case Popen r_handle os2 of
                     Inl ex \<Rightarrow> Inl ex
                   | Inr process \<Rightarrow>
                       (case dumps e (PyList [preparation_data, spec, kwargs]) of
                          Inl ex \<Rightarrow> Inl ex
                        | Inr data \<Rightarrow>
                            (case os_write w data os2 of
                               Inl ex \<Rightarrow> Inl ex
                             | Inr os3 \<Rightarrow>
                                 (case os_close w os3 of
                                    Inl ex \<Rightarrow> Inl ex
                                  | Inr os4 \<Rightarrow> Inr (process, os4)))))))"

text \<open>
  Iterating over a value, as the assignment \<^verbatim>\<open>a, b, c = value\<close> does: a list gives its
  elements, a dict its keys, a string its characters; \<^verbatim>\<open>None\<close> and an integer raise
  \<^verbatim>\<open>TypeError\<close>. A wrong number of values raises \<^verbatim>\<open>ValueError\<close>.
\<close>

definition py_iter :: "pyval \<Rightarrow> exn + pyval list" where
  "py_iter v =
     (case v of
        PyList xs \<Rightarrow> Inr xs
      | PyDict kvs \<Rightarrow> Inr (map fst kvs)
      | PyStr cs \<Rightarrow> Inr (map (\<lambda>c. PyStr [c]) cs)
      | _ \<Rightarrow> Inl TypeError)"

definition unpack3 :: "pyval \<Rightarrow> exn + (pyval \<times> pyval \<times> pyval)" where
  "unpack3 v =
     (case py_iter v of
        Inl ex \<Rightarrow> Inl ex
      | Inr xs \<Rightarrow> (case xs of [a, b, c] \<Rightarrow> Inr (a, b, c) | _ \<Rightarrow> Inl ValueError))"

text \<open>
  \<^verbatim>\<open>modname, funcname = spec.rsplit('.', 1)\<close>: the string is cut at its last dot. A
  string without a dot gives one part, and the assignment raises \<^verbatim>\<open>ValueError\<close>; a
  value that is no string has no \<^verbatim>\<open>rsplit\<close>.
\<close>

definition rsplit_dot :: "string \<Rightarrow> string list" where
  "rsplit_dot cs =
     (if CHR ''.'' \<in> set cs
      then [rev (tl (dropWhile (\<lambda>c. c \<noteq> CHR ''.'') (rev cs))),
            rev (takeWhile (\<lambda>c. c \<noteq> CHR ''.'') (rev cs))]
      else [cs])"

definition split_spec :: "pyval \<Rightarrow> exn + (string \<times> string)" where
  "split_spec spec =
     (case spec of
        PyStr cs \<Rightarrow>
          (case rsplit_dot cs of
             [modname, funcname] \<Rightarrow> Inr (modname, funcname)
           | _ \<Rightarrow> Inl ValueError)
      | _ \<Rightarrow> Inl AttributeError)"

text \<open>
  The call \<^verbatim>\<open>func(**kwargs)\<close> needs a mapping whose keys are strings, and raises
  \<^verbatim>\<open>TypeError\<close> otherwise.
\<close>

fun str_key :: "pyval \<times> pyval \<Rightarrow> (string \<times> pyval) option" where
  "str_key (PyStr k, v) = Some (k, v)"
| "str_key (k, v) = None"

definition keyword_args :: "pyval \<Rightarrow> exn + (string \<times> pyval) list" where
  "keyword_args kwargs =
     (case kwargs of
        PyDict kvs \<Rightarrow>
          (if list_all (\<lambda>kv. str_key kv \<noteq> None) kvs
           then Inr (map (\<lambda>kv. the (str_key kv)) kvs)
           else Inl TypeError)
      | _ \<Rightarrow> Inl TypeError)"

text \<open>
  The Python runtime of the worker is a parameter: \<open>import_module\<close> is
  \<^verbatim>\<open>importlib.import_module\<close>, which returns the module, here the map from its
  attribute names to their values, or raises; \<open>call\<close> applies an attribute value of
  type \<open>'f\<close> to keyword arguments. Both may change the state of the process.
\<close>

record ('f, 'a) runtime =
  import_module :: "string \<Rightarrow> 'a proc_scheme \<Rightarrow> exn + ((string \<Rightarrow> 'f option) \<times> 'a proc_scheme)"
  call :: "'f \<Rightarrow> (string \<times> pyval) list \<Rightarrow> 'a proc_scheme \<Rightarrow> exn + (pyval \<times> 'a proc_scheme)"

text \<open>\<^verbatim>\<open>resolve_spec(spec)\<close>.\<close>

definition resolve_spec ::
  "('f, 'a) runtime \<Rightarrow> pyval \<Rightarrow> 'a proc_scheme \<Rightarrow> exn + ('f \<times> 'a proc_scheme)" where
  "resolve_spec rt spec p =
     (case split_spec spec of
        Inl ex \<Rightarrow> Inl ex
      | Inr (modname, funcname) \<Rightarrow>
          (case import_module rt modname p of
             Inl ex \<Rightarrow> Inl ex
           | Inr (module, p1) \<Rightarrow>
               (case module funcname of
                  None \<Rightarrow> Inl AttributeError
                | Some func \<Rightarrow> Inr (func, p1))))"

text \<open>
  \<^verbatim>\<open>spawn_main(pipe_handle)\<close> in a process with state \<open>p\<close>. It ends by the
  \<^verbatim>\<open>SystemExit\<close> of \<^verbatim>\<open>sys.exit(0)\<close>, that is by exit status 0, or by an exception raised
  on the way. \<^verbatim>\<open>pickle.load\<close> reads from the pipe that the handle refers to; only pipes
  carry data in the model, and a descriptor that is not the read end of one cannot be
  read.
\<close>

datatype 'p outcome = Exits int 'p | Uncaught exn

definition spawn_main ::
  "('f, 'a) runtime \<Rightarrow> env \<Rightarrow> os_state \<Rightarrow> 'a proc_scheme \<Rightarrow> handle \<Rightarrow> 'a proc_scheme outcome" where
  "spawn_main rt e os p pipe_handle =
     (case map_of (fds os) (open_handle pipe_handle ''rb'') of
        Some (PipeRead n) \<Rightarrow>
          (case load e (pipe_data os n) of
             Inl ex \<Rightarrow> Uncaught ex
           | Inr packet \<Rightarrow>
               (case unpack3 packet of
                  Inl ex \<Rightarrow> Uncaught ex
                | Inr (preparation_data, spec, kwargs) \<Rightarrow>
                    (case prepare preparation_data p of
                       Inl ex \<Rightarrow> Uncaught ex
                     | Inr p1 \<Rightarrow>
                         (case split_spec spec of
                            Inl ex \<Rightarrow> Uncaught ex
                          | Inr (modname, funcname) \<Rightarrow>
                              (case import_module rt modname p1 of
                                 Inl ex \<Rightarrow> Uncaught ex
                               | Inr (module, p2) \<Rightarrow>
                                   (case module funcname of
                                      None \<Rightarrow> Uncaught AttributeError
                                    | Some func \<Rightarrow>
                                        (case keyword_args kwargs of
                                           Inl ex \<Rightarrow> Uncaught ex
                                         | Inr kw \<Rightarrow>
                                             (case call rt func kw p2 of
                                                Inl ex \<Rightarrow> Uncaught ex
                                              | Inr (res, p3) \<Rightarrow> Exits 0 p3))))))))
      | _ \<Rightarrow> Uncaught (OSError None))"

section \<open>A sample pickler\<close>

text \<open>
  An instance of the pickle interface on which the theorems below are exercised: a list
  of integers between 0 and 255 is serialised as these bytes, and nothing else is
  serialisable.
\<close>

fun sample_byte :: "pyval \<Rightarrow> byte option" where
  "sample_byte (PyInt n) = (if 0 \<le> n \<and> n < 256 then Some (word_of_int n) else None)"
| "sample_byte v = None"

definition sample_dumps :: "pyval \<Rightarrow> exn + byte list" where
  "sample_dumps v =
     (case v of
        PyList xs \<Rightarrow>
          (if list_all (\<lambda>x. sample_byte x \<noteq> None) xs
           then Inr (map (\<lambda>x. the (sample_byte x)) xs)
           else Inl PicklingError)
      | _ \<Rightarrow> Inl PicklingError)"

definition sample_loads :: "byte list \<Rightarrow> exn + pyval" where
  "sample_loads bs = Inr (PyList (map (\<lambda>b. PyInt (uint b)) bs))"

definition sample_env :: env where
  "sample_env =
     \<lparr>sys_byteorder = Little, alloc_limit = 1048576,
      dumps = sample_dumps, loads = sample_loads, load = sample_loads\<rparr>"

text \<open>A process with its three standard descriptors open.\<close>

definition sample_os :: os_state where
  "sample_os =
     \<lparr>fds = [(0, OtherFile), (1, OtherFile), (2, OtherFile)], inheritable = [0, 1, 2],
      pipe_data = (\<lambda>p. []), next_pipe = 0, fd_limit = 1024\<rparr>"

text \<open>Descriptor 0 is a terminal with input and output pending; no other descriptor is one.\<close>

definition sample_ttys :: "string ttys" where
  "sample_ttys =
     (\<lambda>fd. None)(0 := Some \<lparr>attrs = ''raw'', pending_input = [1], pending_output = [2, 3]\<rparr>)"

text \<open>
  A Windows on which a handle is the process id and the system state is the list of the
  processes that are in a job; assigning one of them again is refused with error 5.
\<close>

definition sample_winapi :: "(handle list) winapi" where
  "sample_winapi =
     \<lparr>OpenProcess = (\<lambda>pid w. (Inr pid, w)),
      AssignProcessToJobObject =
        (\<lambda>job hp w. if hp \<in> set w then (Inl (OSError (Some 5)), w) else (Inr (PyInt 1), hp # w))\<rparr>"

text \<open>
  A bootstrap packet, a pickler that knows this one value, and a worker runtime whose
  module \<^verbatim>\<open>pkg.mod\<close> has the attribute \<^verbatim>\<open>main\<close>; a call appends the function and its
  keyword arguments to a log kept in the state of the process.
\<close>

definition sample_packet :: pyval where
  "sample_packet =
     PyList [PyDict [(PyStr ''sys.argv'', PyList [PyStr ''prog'', PyStr ''-v''])],
             PyStr ''pkg.mod.main'',
             PyDict [(PyStr ''n'', PyInt 3)]]"

definition boot_env :: env where
  "boot_env =
     \<lparr>sys_byteorder = Little, alloc_limit = 1048576,
      dumps = (\<lambda>v. if v = sample_packet then Inr [128, 3, 46] else Inl PicklingError),
      loads = (\<lambda>bs. if bs = [128, 3, 46] then Inr sample_packet else Inl UnpicklingError),
      load = (\<lambda>bs. if bs = [128, 3, 46] then Inr sample_packet else Inl UnpicklingError)\<rparr>"

definition sample_runtime :: "(string, (string \<times> (string \<times> pyval) list) list) runtime" where
  "sample_runtime =
     \<lparr>import_module =
        (\<lambda>m p. if m = ''pkg.mod''
               then Inr ((\<lambda>a. if a = ''main'' then Some ''pkg.mod.main'' else None), p)
               else Inl ImportError),
      call = (\<lambda>f kw p. Inr (PyNone, p\<lparr>proc.more := proc.more p @ [(f, kw)]\<rparr>))\<rparr>"

definition sample_proc :: "(string \<times> (string \<times> pyval) list) list proc_scheme" where
  "sample_proc = \<lparr>sys_argv = PyList [PyStr ''prog'', PyStr ''-v''], \<dots> = []\<rparr>"

definition worker_proc :: "(string \<times> (string \<times> pyval) list) list proc_scheme" where
  "worker_proc = \<lparr>sys_argv = PyList [PyStr ''-c''], \<dots> = []\<rparr>"

definition sample_Popen :: "handle \<Rightarrow> os_state \<Rightarrow> exn + nat" where
  "sample_Popen h os = Inr h"

text \<open>The operating system after \<^verbatim>\<open>spawn\<close> in \<open>sample_os\<close>, as the worker finds it.\<close>

definition worker_os :: os_state where
  "worker_os =
     sample_os\<lparr>fds := [(3, PipeRead 0), (0, OtherFile), (1, OtherFile), (2, OtherFile)],
               inheritable := [3, 0, 1, 2],
               pipe_data := (\<lambda>p. [])(0 := [128, 3, 46]),
               next_pipe := 1\<rparr>"

section \<open>Truncated frames\<close>

lemma read_ok: "readable e n \<Longrightarrow> read e n s = Inr (take n s, drop n s)"
  by (simp add: read_def readable_def)

lemma readable_8: "readable e 8"
  by (simp add: readable_def)

lemma read_8: "read e 8 s = Inr (take 8 s, drop 8 s)"
  by (rule read_ok [OF readable_8])

lemma readable_le: "readable e n \<Longrightarrow> m \<le> n \<Longrightarrow> readable e m"
  by (simp add: readable_def)

lemma unpack_length: "struct_unpack_Q bo p = Inr K \<Longrightarrow> length p = 8"
  by (simp add: struct_unpack_Q_def split: if_splits)

lemma recv_payload_eof_at_start:
  "0 < K \<Longrightarrow> readable e K \<Longrightarrow> recv_payload e K K buf [] = Inl EOFError"
  by (subst recv_payload.simps) (simp add: read_ok)

lemma recv_payload_eof_inside:
  "0 < r \<Longrightarrow> r \<noteq> K \<Longrightarrow> readable e r \<Longrightarrow>
   recv_payload e K r buf [] = Inl (IOError ''got end of file during message'')"
  by (subst recv_payload.simps) (simp add: read_ok)

lemma recv_payload_short:
  assumes "t \<noteq> []" "length t < K" "readable e K"
  shows "recv_payload e K K buf t = Inl (IOError ''got end of file during message'')"
proof -
  from assms have "recv_payload e K K buf t = recv_payload e K (K - length t) (buf @ t) []"
    by (subst recv_payload.simps) (simp add: read_ok)
  also have "\<dots> = Inl (IOError ''got end of file during message'')"
  proof (rule recv_payload_eof_inside)
    from assms have "0 < length t" by simp
    with assms show "0 < K - length t" and "K - length t \<noteq> K" by arith+
    from assms(3) show "readable e (K - length t)" by (rule readable_le) simp
  qed
  finally show ?thesis .
qed

lemma recv_payload_unreadable:
  assumes "0 < K" and "\<not> readable e K"
  shows "recv_payload e K K buf t =
           Inl (if 2 ^ 63 - 33 \<le> K then OverflowError else MemoryError)"
  using assms by (subst recv_payload.simps) (auto simp: read_def readable_def)

text \<open>
  Claim C1, as amended. A length prefix announces \<open>K > 0\<close> payload bytes and the stream
  ends after \<open>t\<close>, fewer than \<open>K\<close> bytes. When \<^verbatim>\<open>read\<close> cannot allocate \<open>K\<close> bytes,
  \<^verbatim>\<open>self.r.read(remaining)\<close> raises \<^verbatim>\<open>OverflowError\<close> or \<^verbatim>\<open>MemoryError\<close> and the reader
  thread dies of it. Otherwise, when at least one payload byte arrived, \<^verbatim>\<open>_recv_packet\<close>
  raises \<^verbatim>\<open>IOError('got end of file during message')\<close>, and the reader thread dies of it.
  In both cases no \<^verbatim>\<open>None\<close> is put on the queue. When \<open>K\<close> bytes can be read and no
  payload byte arrived, the test \<^verbatim>\<open>remaining == size\<close> selects \<^verbatim>\<open>EOFError\<close>, which
  \<^verbatim>\<open>_read_loop\<close> catches: the thread ends as on a clean close, with \<^verbatim>\<open>None\<close> on the
  queue.
\<close>

theorem partial_frame:
  assumes "struct_unpack_Q (sys_byteorder e) p = Inr K" and "0 < K" and "length t < K"
  shows "recv_packet e (p @ t) =
           Inl (if \<not> readable e K
                then (if 2 ^ 63 - 33 \<le> K then OverflowError else MemoryError)
                else if t = [] then EOFError
                else IOError ''got end of file during message'')
       \<and> read_loop e q (p @ t) =
           (if \<not> readable e K
            then (Died (if 2 ^ 63 - 33 \<le> K then OverflowError else MemoryError), q)
            else if t = [] then (Finished, q @ [PyNone])
            else (Died (IOError ''got end of file during message''), q))"
proof -
  from assms(1) have len: "length p = 8"
    by (rule unpack_length)
  then have ne: "p \<noteq> []" by auto
  have rp: "recv_packet e (p @ t) =
           Inl (if \<not> readable e K
                then (if 2 ^ 63 - 33 \<le> K then OverflowError else MemoryError)
                else if t = [] then EOFError
                else IOError ''got end of file during message'')"
  proof (cases "readable e K")
    case False
    with assms len ne recv_payload_unreadable [OF assms(2) False, of "[]" t] show ?thesis
      by (simp add: recv_packet_def read_8 del: recv_payload.simps)
  next
    case True
    show ?thesis
    proof (cases "t = []")
      case t: True
      with True assms len ne recv_payload_eof_at_start [OF assms(2) True, of "[]"]
      show ?thesis
        by (simp add: recv_packet_def read_8 del: recv_payload.simps)
    next
      case t: False
      with True assms len ne recv_payload_short [OF t assms(3) True, of "[]"] show ?thesis
        by (simp add: recv_packet_def read_8 del: recv_payload.simps)
    qed
  qed
  show ?thesis
    by (subst read_loop.simps) (simp add: rp)
qed

lemma sample_readable: "n \<le> 1048576 \<Longrightarrow> readable sample_env n"
  by (simp add: readable_def sample_env_def)

theorem partial_frame_witness:
  "struct_unpack_Q (sys_byteorder sample_env) [3, 0, 0, 0, 0, 0, 0, 0] = Inr 3
   \<and> (0::nat) < 3 \<and> length [7 :: byte, 9] < 3
   \<and> recv_packet sample_env ([3, 0, 0, 0, 0, 0, 0, 0] @ [7, 9]) =
       Inl (IOError ''got end of file during message'')
   \<and> read_loop sample_env [] ([3, 0, 0, 0, 0, 0, 0, 0] @ [7, 9]) =
       (Died (IOError ''got end of file during message''), [])
   \<and> struct_unpack_Q (sys_byteorder sample_env) [0, 0, 0, 0, 0, 0, 0, 128]
       = Inr 9223372036854775808
   \<and> recv_packet sample_env ([0, 0, 0, 0, 0, 0, 0, 128] @ [7, 9]) = Inl OverflowError
   \<and> read_loop sample_env [] ([0, 0, 0, 0, 0, 0, 0, 128] @ [7, 9]) = (Died OverflowError, [])"
proof -
  have u: "struct_unpack_Q (sys_byteorder sample_env) [3, 0, 0, 0, 0, 0, 0, 0] = Inr 3"
    by (simp add: struct_unpack_Q_def sample_env_def)
  have v: "struct_unpack_Q (sys_byteorder sample_env) [0, 0, 0, 0, 0, 0, 0, 128]
      = Inr 9223372036854775808"
    by (simp add: struct_unpack_Q_def sample_env_def)
  have r: "readable sample_env 3"
    by (simp add: sample_readable)
  have n: "\<not> readable sample_env 9223372036854775808"
    by (simp add: readable_def)
  show ?thesis
    using u v r n partial_frame [OF u, of "[7, 9]" "[]"] partial_frame [OF v, of "[7, 9]" "[]"]
    by simp
qed

text \<open>
  Claim C1, as stated, fails on a stream that ends right after a prefix announcing one
  byte: \<^verbatim>\<open>_read_loop\<close> ends exactly as it does on the empty stream.
\<close>

theorem empty_payload_is_clean_close_counterexample:
  "struct_unpack_Q Little [1, 0, 0, 0, 0, 0, 0, 0] = Inr 1
   \<and> recv_packet sample_env [1, 0, 0, 0, 0, 0, 0, 0] = Inl EOFError
   \<and> read_loop sample_env [] [1, 0, 0, 0, 0, 0, 0, 0] = (Finished, [PyNone])
   \<and> read_loop sample_env [] [] = (Finished, [PyNone])"
proof -
  have u: "struct_unpack_Q Little [1, 0, 0, 0, 0, 0, 0, 0] = Inr 1"
    by (simp add: struct_unpack_Q_def)
  have "recv_payload sample_env 1 1 [] [] = Inl EOFError"
    by (rule recv_payload_eof_at_start) (simp_all add: sample_readable)
  with u have rp: "recv_packet sample_env [1, 0, 0, 0, 0, 0, 0, 0] = Inl EOFError"
    by (simp add: recv_packet_def read_8 sample_env_def del: recv_payload.simps)
  have rp0: "recv_packet sample_env [] = Inr (PyNone, [])"
    by (simp add: recv_packet_def read_8)
  have "read_loop sample_env [] [1, 0, 0, 0, 0, 0, 0, 0] = (Finished, [PyNone])"
    by (subst read_loop.simps) (simp add: rp)
  moreover have "read_loop sample_env [] [] = (Finished, [PyNone])"
    by (subst read_loop.simps) (simp add: rp0)
  ultimately show ?thesis using u rp by simp
qed

section \<open>Truncated length prefix\<close>

text \<open>
  Claim C10. When the stream ends after one to seven bytes of a length prefix,
  \<^verbatim>\<open>self.r.read(8)\<close> returns these bytes, \<^verbatim>\<open>struct.unpack\<close> raises
  \<^verbatim>\<open>struct.error\<close>, and \<^verbatim>\<open>_read_loop\<close>, whose only handler is for \<^verbatim>\<open>EOFError\<close>, lets
  it through: the thread dies and the queue is left as it was, with no \<^verbatim>\<open>None\<close> put on
  it. The outcome is neither the \<^verbatim>\<open>None\<close> that \<^verbatim>\<open>_recv_packet\<close> returns at a clean end
  of the stream nor the \<^verbatim>\<open>IOError\<close> of a truncated payload. The queue \<open>q\<close> is arbitrary,
  so the statement covers every iteration of the loop.
\<close>

theorem truncated_prefix_struct_error:
  assumes "0 < length s" and "length s < 8"
  shows "recv_packet e s = Inl StructError
       \<and> read_loop e q s = (Died StructError, q)
       \<and> recv_packet e s \<noteq> recv_packet e []
       \<and> recv_packet e s \<noteq> Inl (IOError ''got end of file during message'')"
proof -
  from assms have rp: "recv_packet e s = Inl StructError"
    by (auto simp: recv_packet_def read_8 struct_unpack_Q_def)
  have "read_loop e q s = (Died StructError, q)"
    by (subst read_loop.simps) (simp add: rp)
  moreover have "recv_packet e [] = Inr (PyNone, [])"
    by (simp add: recv_packet_def read_8)
  ultimately show ?thesis
    using rp by simp
qed

theorem truncated_prefix_struct_error_witness:
  "0 < length [1, 2, 3 :: byte] \<and> length [1, 2, 3 :: byte] < 8
   \<and> recv_packet sample_env [1, 2, 3] = Inl StructError
   \<and> read_loop sample_env [PyList [PyInt 7]] [1, 2, 3] = (Died StructError, [PyList [PyInt 7]])"
  using truncated_prefix_struct_error [of "[1, 2, 3]" sample_env "[PyList [PyInt 7]]"]
  by simp

section \<open>Frames written by \<^verbatim>\<open>send\<close> and read by \<^verbatim>\<open>_recv_packet\<close>\<close>

lemma le_bytes_numeral:
  "le_bytes (numeral k) n = word_of_nat (n mod 256) # le_bytes (pred_numeral k) (n div 256)"
proof -
  have "le_bytes (Suc (pred_numeral k)) n
      = word_of_nat (n mod 256) # le_bytes (pred_numeral k) (n div 256)"
    by (rule le_bytes.simps)
  then show ?thesis
    by (simp only: numeral_eq_Suc [symmetric])
qed

lemma le_val_le_bytes: "le_val (le_bytes k n) = n mod 256 ^ k"
proof (induction k arbitrary: n)
  case 0
  show ?case by simp
next
  case (Suc k)
  have "le_val (le_bytes (Suc k) n) = n mod 256 + 256 * (n div 256 mod 256 ^ k)"
    by (simp add: Suc.IH unat_of_nat)
  also have "\<dots> = n mod (256 * 256 ^ k)"
    by (simp add: mod_mult2_eq)
  finally show ?case by simp
qed

lemma length_le_bytes: "length (le_bytes k n) = k"
  by (induction k arbitrary: n) simp_all

lemma struct_pack_Q_length: "struct_pack_Q bo n = Inr hdr \<Longrightarrow> length hdr = 8"
  by (auto simp: struct_pack_Q_def length_le_bytes split: if_splits byteorder.splits)

lemma struct_unpack_pack_Q:
  assumes "struct_pack_Q bo n = Inr hdr"
  shows "struct_unpack_Q bo hdr = Inr n"
proof -
  from assms have n: "n < 2 ^ 64"
    by (simp add: struct_pack_Q_def split: if_splits)
  have "(256::nat) ^ 8 = 2 ^ 64" by simp
  with n have m: "n mod 256 ^ 8 = n" by simp
  from assms n have "(case bo of Little \<Rightarrow> hdr | Big \<Rightarrow> rev hdr) = le_bytes 8 n"
    by (auto simp: struct_pack_Q_def split: byteorder.splits)
  with m struct_pack_Q_length [OF assms] show ?thesis
    by (simp add: struct_unpack_Q_def le_val_le_bytes del: le_bytes.simps)
qed

lemma recv_payload_complete:
  assumes "readable e (length data)"
  shows "recv_payload e (length data) (length data) [] (data @ rest) = Inr (data, rest)"
proof (cases "data = []")
  case True
  then show ?thesis by simp
next
  case False
  with assms have "recv_payload e (length data) (length data) [] (data @ rest)
      = recv_payload e (length data) 0 data rest"
    by (subst recv_payload.simps) (simp add: read_ok)
  then show ?thesis by simp
qed

lemma recv_packet_frame:
  assumes "struct_pack_Q (sys_byteorder e) (length data) = Inr hdr"
    and "readable e (length data)"
  shows "recv_packet e (hdr @ data @ rest) =
           (case loads e data of Inl ex \<Rightarrow> Inl ex | Inr v \<Rightarrow> Inr (v, rest))"
proof -
  have len: "length hdr = 8" using assms(1) by (rule struct_pack_Q_length)
  then have "hdr \<noteq> []" by auto
  with len struct_unpack_pack_Q [OF assms(1)] recv_payload_complete [OF assms(2), of rest]
  show ?thesis
    by (simp add: recv_packet_def read_8 del: recv_payload.simps)
qed

lemma send_success:
  assumes "dumps e v = Inr data" and "struct_pack_Q (sys_byteorder e) (length data) = Inr hdr"
    and "\<not> broken w"
  shows "send e w v = Inr (length data + 8, w\<lparr>written := written w @ hdr @ data\<rparr>)"
  using assms by (simp add: send_def w_write_def w_flush_def)

text \<open>
  Claim C7. When \<^verbatim>\<open>pickle.dumps(value)\<close> returns \<open>data\<close> and the pipe can be written,
  \<^verbatim>\<open>send\<close> returns \<open>8 + length data\<close>, and this is the number of bytes that the call
  appended to the stream: eight bytes of length prefix, then \<open>data\<close>. The length of a
  Python bytes object is at most \<^verbatim>\<open>sys.maxsize\<close>, below \<open>2 ^ 64\<close>, so \<^verbatim>\<open>struct.pack\<close>
  accepts it.
\<close>

theorem send_returns_bytes_written:
  assumes "dumps e v = Inr data" and "length data < 2 ^ 64" and "\<not> broken w"
  shows "case send e w v of
           Inl ex \<Rightarrow> False
         | Inr (n, w') \<Rightarrow>
             n = 8 + length data
           \<and> length (written w') = length (written w) + n
           \<and> take (length (written w)) (written w') = written w
           \<and> drop (length (written w) + 8) (written w') = data"
proof -
  from assms(2) obtain hdr where hdr: "struct_pack_Q (sys_byteorder e) (length data) = Inr hdr"
    by (simp add: struct_pack_Q_def)
  from send_success [OF assms(1) hdr assms(3)] struct_pack_Q_length [OF hdr]
  show ?thesis by simp
qed

lemma sample_dumps_hi: "dumps sample_env (PyList [PyInt 104, PyInt 105]) = Inr [104, 105]"
  by (simp add: sample_env_def sample_dumps_def)

lemma sample_loads_hi: "loads sample_env [104, 105] = Inr (PyList [PyInt 104, PyInt 105])"
  by (simp add: sample_env_def sample_loads_def)

lemma sample_send_hi:
  "send sample_env \<lparr>written = [], broken = False\<rparr> (PyList [PyInt 104, PyInt 105])
     = Inr (10, \<lparr>written = [2, 0, 0, 0, 0, 0, 0, 0, 104, 105], broken = False\<rparr>)"
  by (simp add: send_def sample_dumps_hi struct_pack_Q_def w_write_def w_flush_def
      le_bytes_numeral sample_env_def sample_dumps_def)

theorem send_returns_bytes_written_witness:
  "dumps sample_env (PyList [PyInt 104, PyInt 105]) = Inr [104, 105]
   \<and> length [104, 105 :: byte] < 2 ^ 64
   \<and> \<not> broken \<lparr>written = [], broken = False\<rparr>
   \<and> send sample_env \<lparr>written = [], broken = False\<rparr> (PyList [PyInt 104, PyInt 105])
       = Inr (10, \<lparr>written = [2, 0, 0, 0, 0, 0, 0, 0, 104, 105], broken = False\<rparr>)"
  using send_returns_bytes_written [OF sample_dumps_hi, of "\<lparr>written = [], broken = False\<rparr>"]
    sample_dumps_hi sample_send_hi
  by simp

text \<open>
  Claim C4. For a value \<open>v\<close> that pickle serialises to \<open>data\<close> and deserialises back
  from it, the bytes that \<^verbatim>\<open>send\<close> appends to the stream, read by \<^verbatim>\<open>_recv_packet\<close>,
  give \<open>v\<close> again and leave what follows the frame in the stream. The payload is a
  bytes object of the sender, so its length is within the bound on bytes objects;
  \<open>readable\<close> says that the receiver has the memory to read it.
\<close>

theorem frame_round_trip:
  assumes "dumps e v = Inr data" and "loads e data = Inr v" and "length data < 2 ^ 64"
    and "\<not> broken w" and "readable e (length data)"
  shows "case send e w v of
           Inl ex \<Rightarrow> False
         | Inr (n, w') \<Rightarrow>
             recv_packet e (drop (length (written w)) (written w') @ rest) = Inr (v, rest)"
proof -
  from assms(3) obtain hdr where hdr: "struct_pack_Q (sys_byteorder e) (length data) = Inr hdr"
    by (simp add: struct_pack_Q_def)
  from send_success [OF assms(1) hdr assms(4)] recv_packet_frame [OF hdr assms(5), of rest]
    assms(2)
  show ?thesis by simp
qed

theorem frame_round_trip_witness:
  "dumps sample_env (PyList [PyInt 104, PyInt 105]) = Inr [104, 105]
   \<and> loads sample_env [104, 105] = Inr (PyList [PyInt 104, PyInt 105])
   \<and> length [104, 105 :: byte] < 2 ^ 64
   \<and> \<not> broken \<lparr>written = [], broken = False\<rparr>
   \<and> readable sample_env (length [104, 105 :: byte])
   \<and> recv_packet sample_env ([2, 0, 0, 0, 0, 0, 0, 0, 104, 105] @ [1, 2])
       = Inr (PyList [PyInt 104, PyInt 105], [1, 2])"
proof -
  have r: "readable sample_env (length [104, 105 :: byte])"
    by (simp add: sample_readable)
  have l: "length [104, 105 :: byte] < 2 ^ 64"
    by simp
  have b: "\<not> broken \<lparr>written = [], broken = False\<rparr>"
    by simp
  from frame_round_trip [OF sample_dumps_hi sample_loads_hi l b r, of "[1, 2]"]
    sample_dumps_hi sample_loads_hi sample_send_hi r
  show ?thesis by simp
qed

section \<open>The closed sentinel\<close>

text \<open>
  The loop on a stream that begins with a complete frame, and at the end of the stream:
  each frame that the peer sent is decoded and queued, and a close at a frame boundary
  ends the thread by the clean-close path.
\<close>

lemma read_loop_frame:
  assumes "struct_pack_Q (sys_byteorder e) (length data) = Inr hdr"
    and "readable e (length data)"
    and "loads e data = Inr v" and "v \<noteq> PyNone"
  shows "read_loop e q (hdr @ data @ rest) = read_loop e (q @ [v]) rest"
  by (subst read_loop.simps) (simp add: recv_packet_frame [OF assms(1,2)] assms(3,4))

lemma read_loop_end_of_stream: "read_loop e q [] = (Finished, q @ [PyNone])"
  by (subst read_loop.simps) (simp add: recv_packet_def read_8)

lemma send_returned:
  assumes "send e w v = Inr (n, w1)"
  shows "\<exists>data hdr. dumps e v = Inr data
           \<and> struct_pack_Q (sys_byteorder e) (length data) = Inr hdr
           \<and> w1 = w\<lparr>written := written w @ hdr @ data\<rparr>"
  using assms by (auto simp: send_def w_write_def w_flush_def split: sum.splits if_splits)

lemma read_loop_send_all:
  assumes "send_all e w vs = Inr w'"
    and "\<forall>v\<in>set vs. v \<noteq> PyNone
           \<and> (\<exists>data. dumps e v = Inr data \<and> loads e data = Inr v \<and> readable e (length data))"
  shows "\<exists>bs. written w' = written w @ bs
           \<and> (\<forall>q. read_loop e q bs = (Finished, q @ vs @ [PyNone]))"
  using assms
proof (induction vs arbitrary: w)
  case Nil
  then show ?case by (simp add: read_loop_end_of_stream del: read_loop.simps)
next
  case (Cons v vs)
  from Cons.prems(1) obtain n w1 where s1: "send e w v = Inr (n, w1)"
    and rest: "send_all e w1 vs = Inr w'"
    by (auto split: sum.splits)
  from send_returned [OF s1] obtain data hdr where d: "dumps e v = Inr data"
    and hdr: "struct_pack_Q (sys_byteorder e) (length data) = Inr hdr"
    and w1: "w1 = w\<lparr>written := written w @ hdr @ data\<rparr>"
    by blast
  from Cons.prems(2) d have v: "v \<noteq> PyNone" "loads e data = Inr v" "readable e (length data)"
    by auto
  from Cons.prems(2) have "\<forall>x\<in>set vs. x \<noteq> PyNone
      \<and> (\<exists>data. dumps e x = Inr data \<and> loads e data = Inr x \<and> readable e (length data))"
    by simp
  from Cons.IH [OF rest this] obtain bs where bs: "written w' = written w1 @ bs"
    and loop: "\<And>q. read_loop e q bs = (Finished, q @ vs @ [PyNone])"
    by blast
  have "read_loop e q (hdr @ data @ bs) = (Finished, q @ (v # vs) @ [PyNone])" for q
    using read_loop_frame [OF hdr v(3) v(2) v(1), of q bs] loop [of "q @ [v]"]
    by (simp del: read_loop.simps)
  with bs w1 show ?case
    by (intro exI [of _ "hdr @ data @ bs"]) (simp del: read_loop.simps)
qed

lemma read_loop_finished:
  assumes "read_loop e q0 s = (Finished, q)"
  shows "\<exists>packets. q = q0 @ packets @ [PyNone] \<and> PyNone \<notin> set packets"
  using assms
proof (induction e q0 s rule: read_loop.induct)
  case (1 e q0 s)
  show ?case
  proof (cases "recv_packet e s")
    case (Inl ex)
    with "1.prems" have "q = q0 @ [] @ [PyNone]"
      by (subst (asm) read_loop.simps) (simp split: if_splits)
    then show ?thesis by (intro exI [of _ "[]"]) simp
  next
    case (Inr x)
    obtain packet s' where x: "x = (packet, s')" by (cases x)
    show ?thesis
    proof (cases "packet = PyNone")
      case True
      with "1.prems" Inr x have "q = q0 @ [] @ [PyNone]"
        by (subst (asm) read_loop.simps) simp
      then show ?thesis by (intro exI [of _ "[]"]) simp
    next
      case False
      with "1.prems" Inr x have "read_loop e (q0 @ [packet]) s' = (Finished, q)"
        by (subst (asm) read_loop.simps) simp
      with "1.IH" [OF Inr x [symmetric] False]
      obtain packets where "q = (q0 @ [packet]) @ packets @ [PyNone]" "PyNone \<notin> set packets"
        by blast
      with False show ?thesis
        by (intro exI [of _ "packet # packets"]) auto
    qed
  qed
qed

lemma recv_times_drain:
  "recv_times (length q + k) q = map Returned q @ replicate k BlocksForever"
proof (induction q)
  case Nil
  show ?case by (induction k) (simp_all add: recv_def)
next
  case (Cons v q)
  then show ?case by (simp add: recv_def)
qed

text \<open>
  Claim C2, as amended. The peer sends the values \<open>vs\<close> on a new pipe and closes its end;
  each value is not \<^verbatim>\<open>None\<close>, is unpickled from its pickle, and its payload can be read.
  Then the reader thread of the activated connection ends by the clean-close path and
  leaves the queue with the values and then \<^verbatim>\<open>None\<close>, once. Calls of \<^verbatim>\<open>recv()\<close> without
  timeout return the values in order and then the sentinel; every call after that finds
  the queue empty, with no thread left to fill it, and blocks for ever.
\<close>

theorem clean_close_single_sentinel:
  assumes "send_all e \<lparr>written = [], broken = False\<rparr> vs = Inr w'"
    and "\<forall>v\<in>set vs. v \<noteq> PyNone
           \<and> (\<exists>data. dumps e v = Inr data \<and> loads e data = Inr v \<and> readable e (length data))"
  shows "read_loop e [] (written w') = (Finished, vs @ [PyNone])
       \<and> recv_times (length vs + 1 + k) (vs @ [PyNone]) =
           map Returned vs @ Returned PyNone # replicate k BlocksForever"
proof -
  from read_loop_send_all [OF assms] have "read_loop e [] (written w') = (Finished, vs @ [PyNone])"
    by auto
  moreover from recv_times_drain [of "vs @ [PyNone]" k]
  have "recv_times (length vs + 1 + k) (vs @ [PyNone]) =
      map Returned vs @ Returned PyNone # replicate k BlocksForever"
    by simp
  ultimately show ?thesis by simp
qed

lemma sample_send_all:
  "send_all sample_env \<lparr>written = [], broken = False\<rparr> [PyList [PyInt 7], PyList []]
     = Inr \<lparr>written = [1, 0, 0, 0, 0, 0, 0, 0, 7, 0, 0, 0, 0, 0, 0, 0, 0], broken = False\<rparr>"
  by (simp add: send_def struct_pack_Q_def w_write_def w_flush_def le_bytes_numeral
      sample_env_def sample_dumps_def)

theorem clean_close_single_sentinel_witness:
  "send_all sample_env \<lparr>written = [], broken = False\<rparr> [PyList [PyInt 7], PyList []]
     = Inr \<lparr>written = [1, 0, 0, 0, 0, 0, 0, 0, 7, 0, 0, 0, 0, 0, 0, 0, 0], broken = False\<rparr>
   \<and> dumps sample_env (PyList [PyInt 7]) = Inr [7]
   \<and> loads sample_env [7] = Inr (PyList [PyInt 7])
   \<and> dumps sample_env (PyList []) = Inr []
   \<and> loads sample_env [] = Inr (PyList [])
   \<and> read_loop sample_env [] [1, 0, 0, 0, 0, 0, 0, 0, 7, 0, 0, 0, 0, 0, 0, 0, 0]
       = (Finished, [PyList [PyInt 7], PyList [], PyNone])
   \<and> recv_times 5 [PyList [PyInt 7], PyList [], PyNone] =
       [Returned (PyList [PyInt 7]), Returned (PyList []), Returned PyNone,
        BlocksForever, BlocksForever]"
proof -
  have d1: "dumps sample_env (PyList [PyInt 7]) = Inr [7]"
    and l1: "loads sample_env [7] = Inr (PyList [PyInt 7])"
    and d2: "dumps sample_env (PyList []) = Inr []"
    and l2: "loads sample_env [] = Inr (PyList [])"
    by (simp_all add: sample_env_def sample_dumps_def sample_loads_def)
  have "\<forall>v\<in>set [PyList [PyInt 7], PyList []]. v \<noteq> PyNone
      \<and> (\<exists>data. dumps sample_env v = Inr data \<and> loads sample_env data = Inr v
            \<and> readable sample_env (length data))"
    using d1 l1 d2 l2 by (simp add: sample_readable)
  from clean_close_single_sentinel [OF sample_send_all this, of 2] sample_send_all d1 l1 d2 l2
  show ?thesis by (simp add: numeral_eq_Suc)
qed

text \<open>
  Claim C2, as stated, fails when the peer closes without having sent anything: the
  first \<^verbatim>\<open>recv()\<close> returns \<^verbatim>\<open>None\<close> and empties the queue, the second one blocks.
\<close>

theorem recv_after_sentinel_blocks_counterexample:
  "read_loop sample_env [] [] = (Finished, [PyNone])
   \<and> recv [PyNone] None = (Returned PyNone, [])
   \<and> recv [] None = (BlocksForever, [])"
proof -
  have "recv_packet sample_env [] = Inr (PyNone, [])"
    by (simp add: recv_packet_def read_8)
  then have "read_loop sample_env [] [] = (Finished, [PyNone])"
    by (subst read_loop.simps) simp
  then show ?thesis
    by (simp add: recv_def)
qed

section \<open>The descriptors of a \<^verbatim>\<open>Pipe\<close>\<close>

lemma free_from_used:
  "free_from k n used \<in> set used \<Longrightarrow> {n..n + k} \<subseteq> set used"
proof (induction k arbitrary: n)
  case 0
  then show ?case by simp
next
  case (Suc k)
  show ?case
  proof (cases "n \<in> set used")
    case True
    with Suc.prems have "free_from k (Suc n) used \<in> set used" by simp
    then have "{Suc n..Suc n + k} \<subseteq> set used" by (rule Suc.IH)
    moreover have "{n..n + Suc k} = insert n {Suc n..Suc n + k}" by auto
    ultimately show ?thesis using True by simp
  next
    case False
    with Suc.prems show ?thesis by simp
  qed
qed

lemma lowest_free_fresh: "lowest_free used \<notin> set used"
proof
  assume "lowest_free used \<in> set used"
  then have "{0..0 + length used} \<subseteq> set used"
    unfolding lowest_free_def by (rule free_from_used)
  then have "card {0..0 + length used} \<le> card (set used)"
    by (intro card_mono) simp_all
  moreover have "card (set used) \<le> length used" by (rule card_length)
  ultimately show False by simp
qed

lemma free_from_le: "free_from k n used \<le> n + k"
proof (induction k arbitrary: n)
  case 0
  show ?case by simp
next
  case (Suc k)
  from Suc.IH [of "Suc n"] show ?case by simp
qed

lemma lowest_free_le: "lowest_free used \<le> length used"
  using free_from_le [of "length used" 0 used] by (simp add: lowest_free_def)

lemma os_pipe_result:
  assumes "os_pipe os = Inr ((r, w), os')"
  shows "r \<notin> fst ` set (fds os)" and "w \<notin> fst ` set (fds os)" and "r \<noteq> w"
    and "fds os' = (w, PipeWrite (next_pipe os)) # (r, PipeRead (next_pipe os)) # fds os"
    and "next_pipe os' = Suc (next_pipe os)"
proof -
  let ?used = "map fst (fds os)"
  from assms have r: "r = lowest_free ?used" and w: "w = lowest_free (r # ?used)"
    and os': "os' = os\<lparr>fds := (w, PipeWrite (next_pipe os)) # (r, PipeRead (next_pipe os)) # fds os,
                   pipe_data := (pipe_data os)(next_pipe os := []),
                   next_pipe := Suc (next_pipe os)\<rparr>"
    by (auto simp: os_pipe_def Let_def split: if_splits)
  from lowest_free_fresh [of ?used] r show "r \<notin> fst ` set (fds os)" by simp
  from lowest_free_fresh [of "r # ?used"] w show "w \<notin> fst ` set (fds os)" and "r \<noteq> w"
    by auto
  from os' show "fds os' = (w, PipeWrite (next_pipe os)) # (r, PipeRead (next_pipe os)) # fds os"
    and "next_pipe os' = Suc (next_pipe os)"
    by simp_all
qed

lemma os_pipe_returns:
  assumes "length (fds os) + 2 \<le> fd_limit os"
  shows "\<exists>r w os'. os_pipe os = Inr ((r, w), os')"
proof -
  let ?used = "map fst (fds os)"
  have "lowest_free ?used \<le> length (fds os)"
    using lowest_free_le [of ?used] by simp
  moreover have "lowest_free (lowest_free ?used # ?used) \<le> Suc (length (fds os))"
    using lowest_free_le [of "lowest_free ?used # ?used"] by simp
  ultimately show ?thesis
    using assms by (simp add: os_pipe_def Let_def)
qed

text \<open>
  Claim C9. For the connections \<open>c1\<close> and \<open>c2\<close> that \<^verbatim>\<open>Pipe()\<close> returns: the read and the
  write descriptor of each differ, the four descriptors are pairwise distinct, each
  connection's remote descriptors are the other one's own, and the descriptors are the
  ends of two pipes: \<open>c1\<close> reads the pipe that \<open>c2\<close> writes, and \<open>c2\<close> reads the other
  pipe, which \<open>c1\<close> writes.
\<close>

theorem Pipe_descriptors:
  assumes "Pipe os = Inr ((c1, c2), os')"
  shows "r_fd c1 \<noteq> w_fd c1 \<and> r_fd c2 \<noteq> w_fd c2
       \<and> distinct [r_fd c1, w_fd c1, r_fd c2, w_fd c2]
       \<and> remote_r_fd c1 = r_fd c2 \<and> remote_w_fd c1 = w_fd c2
       \<and> remote_r_fd c2 = r_fd c1 \<and> remote_w_fd c2 = w_fd c1
       \<and> map_of (fds os') (r_fd c1) = Some (PipeRead (next_pipe os))
       \<and> map_of (fds os') (w_fd c2) = Some (PipeWrite (next_pipe os))
       \<and> map_of (fds os') (r_fd c2) = Some (PipeRead (Suc (next_pipe os)))
       \<and> map_of (fds os') (w_fd c1) = Some (PipeWrite (Suc (next_pipe os)))"
proof -
  from assms obtain c2pr c2pw os1 p2cr p2cw where
    p1: "os_pipe os = Inr ((c2pr, c2pw), os1)" and
    p2: "os_pipe os1 = Inr ((p2cr, p2cw), os')" and
    c1: "c1 = Connection c2pr p2cw p2cr c2pw" and
    c2: "c2 = Connection p2cr c2pw c2pr p2cw"
    by (auto simp: Pipe_def split: sum.splits prod.splits)
  note a = os_pipe_result [OF p1] and b = os_pipe_result [OF p2]
  from a(4) b(1,2) have d: "p2cr \<noteq> c2pr" "p2cr \<noteq> c2pw" "p2cw \<noteq> c2pr" "p2cw \<noteq> c2pw"
    by auto
  from a b d show ?thesis
    by (simp add: c1 c2 Connection_def)
qed

lemma sample_Pipe:
  "Pipe sample_os =
     Inr ((Connection 3 6 5 4, Connection 5 4 3 6),
          sample_os\<lparr>fds := [(6, PipeWrite 1), (5, PipeRead 1), (4, PipeWrite 0), (3, PipeRead 0),
                          (0, OtherFile), (1, OtherFile), (2, OtherFile)],
                    pipe_data := (\<lambda>p. []), next_pipe := 2\<rparr>)"
  by (simp add: Pipe_def os_pipe_def Let_def lowest_free_def sample_os_def fun_eq_iff
      Connection_def)

lemma Pipe_returns:
  assumes "length (fds os) + 4 \<le> fd_limit os"
  shows "\<exists>c1 c2 os'. Pipe os = Inr ((c1, c2), os')"
proof -
  from assms os_pipe_returns [of os] obtain r w os1 where p1: "os_pipe os = Inr ((r, w), os1)"
    by auto
  then have "fd_limit os1 = fd_limit os"
    by (auto simp: os_pipe_def Let_def split: if_splits)
  with os_pipe_result(4) [OF p1] assms have "length (fds os1) + 2 \<le> fd_limit os1"
    by simp
  with os_pipe_returns [of os1] obtain r' w' os2 where "os_pipe os1 = Inr ((r', w'), os2)"
    by auto
  with p1 show ?thesis
    by (simp add: Pipe_def)
qed

theorem Pipe_descriptors_witness:
  "Pipe sample_os =
     Inr ((Connection 3 6 5 4, Connection 5 4 3 6),
          sample_os\<lparr>fds := [(6, PipeWrite 1), (5, PipeRead 1), (4, PipeWrite 0), (3, PipeRead 0),
                          (0, OtherFile), (1, OtherFile), (2, OtherFile)],
                    pipe_data := (\<lambda>p. []), next_pipe := 2\<rparr>)
   \<and> distinct [r_fd (Connection 3 6 5 4), w_fd (Connection 3 6 5 4),
                r_fd (Connection 5 4 3 6), w_fd (Connection 5 4 3 6)]
   \<and> remote_r_fd (Connection 3 6 5 4) = r_fd (Connection 5 4 3 6)"
  using Pipe_descriptors [OF sample_Pipe] sample_Pipe
  by simp

section \<open>Terminal state\<close>

text \<open>
  Claim C8. \<^verbatim>\<open>snapshot_termios(fd)\<close> returns the attributes of the terminal when \<open>fd\<close> is
  one, and \<^verbatim>\<open>None\<close> otherwise; so it returns attributes exactly when \<open>fd\<close> is a terminal.
  \<^verbatim>\<open>restore_termios(fd, state)\<close> discards the pending input and output of the terminal
  and sets its attributes to \<open>state\<close> when \<open>fd\<close> is a terminal and \<open>state\<close> is not
  \<^verbatim>\<open>None\<close>; in every other case it leaves all terminals as they are.
\<close>

theorem termios_snapshot_restore:
  "snapshot_termios t fd = Inr (case t fd of None \<Rightarrow> None | Some y \<Rightarrow> Some (attrs y))
   \<and> (isatty t fd \<longleftrightarrow> (\<exists>a. snapshot_termios t fd = Inr (Some a)))
   \<and> restore_termios t fd state =
       Inr (case (t fd, state) of
              (Some y, Some a) \<Rightarrow>
                t(fd \<mapsto> y\<lparr>pending_input := [], pending_output := [], attrs := a\<rparr>)
            | _ \<Rightarrow> t)"
  by (cases "t fd"; cases state)
    (simp_all add: snapshot_termios_def restore_termios_def isatty_def tcgetattr_def
      tcflush_def tcsetattr_def)

theorem termios_snapshot_restore_witness:
  "isatty sample_ttys 0 \<and> \<not> isatty sample_ttys 1
   \<and> snapshot_termios sample_ttys 0 = Inr (Some ''raw'')
   \<and> snapshot_termios sample_ttys 1 = Inr None
   \<and> restore_termios sample_ttys 0 (Some ''sane'') =
       Inr (sample_ttys(0 \<mapsto> \<lparr>attrs = ''sane'', pending_input = [], pending_output = []\<rparr>))
   \<and> restore_termios sample_ttys 0 None = Inr sample_ttys
   \<and> restore_termios sample_ttys 1 (Some ''sane'') = Inr sample_ttys"
  using termios_snapshot_restore [of sample_ttys 0 "Some ''sane''"]
    termios_snapshot_restore [of sample_ttys 1 "Some ''sane''"]
    termios_snapshot_restore [of sample_ttys 0 None]
  by (simp add: sample_ttys_def isatty_def)

section \<open>Adding a child to the process group\<close>

text \<open>
  Claim C5. On POSIX \<^verbatim>\<open>add_child\<close> returns \<^verbatim>\<open>None\<close> and changes nothing, so a second call
  with the same process id succeeds as the first did. On Windows, once \<^verbatim>\<open>OpenProcess\<close>
  has returned a handle, the outcome \<open>res\<close> of \<^verbatim>\<open>AssignProcessToJobObject\<close> is passed on
  as it is, value or exception, with one exception to this: an \<^verbatim>\<open>OSError\<close> whose
  \<^verbatim>\<open>winerror\<close> is 5 is swallowed and \<^verbatim>\<open>add_child\<close> returns \<^verbatim>\<open>None\<close>. A failure of
  \<^verbatim>\<open>OpenProcess\<close> itself is raised outside the \<^verbatim>\<open>try\<close> statement and is passed on. So,
  after a first call that succeeded, a second call for the same process id, whose
  assignment the system refuses with error 5 because the process is in a job already,
  succeeds too.
\<close>

theorem add_child_idempotent:
  "posix_add_child pid s = (Inr PyNone, s)
   \<and> posix_add_child pid (snd (posix_add_child pid s)) = (Inr PyNone, s)
   \<and> (OpenProcess api pid w = (Inr hp, w1) \<longrightarrow>
        AssignProcessToJobObject api (h_job g) hp w1 = (res, w2) \<longrightarrow>
        win_add_child api g pid w =
          (if res = Inl (OSError (Some 5)) then Inr PyNone else res, w2))
   \<and> (OpenProcess api pid w = (Inl ex, w1) \<longrightarrow> win_add_child api g pid w = (Inl ex, w1))
   \<and> (win_add_child api g pid w = (Inr r1, wa) \<longrightarrow>
        OpenProcess api pid wa = (Inr hp2, wb) \<longrightarrow>
        AssignProcessToJobObject api (h_job g) hp2 wb = (Inl (OSError (Some 5)), wc) \<longrightarrow>
        win_add_child api g pid wa = (Inr PyNone, wc))"
proof -
  have "is_OSError x \<and> winerror x = Some 5 \<longleftrightarrow> x = OSError (Some 5)" for x
    by (cases x) auto
  then show ?thesis
    by (auto simp: posix_add_child_def win_add_child_def split: sum.splits)
qed

theorem add_child_idempotent_witness:
  "posix_add_child 7 () = (Inr PyNone, ())
   \<and> posix_add_child 7 (snd (posix_add_child 7 ())) = (Inr PyNone, ())
   \<and> win_add_child sample_winapi \<lparr>h_job = 1\<rparr> 7 [] = (Inr (PyInt 1), [7])
   \<and> OpenProcess sample_winapi 7 [7] = (Inr 7, [7])
   \<and> AssignProcessToJobObject sample_winapi 1 7 [7] = (Inl (OSError (Some 5)), [7])
   \<and> win_add_child sample_winapi \<lparr>h_job = 1\<rparr> 7 [7] = (Inr PyNone, [7])"
  using add_child_idempotent [where pid = 7 and s = "()" and api = sample_winapi and w = "[]"
        and hp = 7 and ?w1.0 = "[]" and g = "\<lparr>h_job = 1\<rparr>" and res = "Inr (PyInt 1)"
        and ?w2.0 = "[7]" and ?r1.0 = "PyInt 1" and wa = "[7]" and ?hp2.0 = 7 and wb = "[7]"
        and wc = "[7]"]
  by (simp add: sample_winapi_def)

section \<open>The worker's entry point\<close>

lemma rsplit_dot_parts:
  assumes "rsplit_dot cs = [m, f]"
  shows "m @ ''.'' @ f = cs" and "CHR ''.'' \<notin> set f"
proof -
  let ?P = "\<lambda>c. c \<noteq> CHR ''.''"
  from assms have dot: "CHR ''.'' \<in> set cs"
    and m: "m = rev (tl (dropWhile ?P (rev cs)))" and f: "f = rev (takeWhile ?P (rev cs))"
    by (auto simp: rsplit_dot_def split: if_splits)
  from dot have ne: "dropWhile ?P (rev cs) \<noteq> []" by simp
  then have "hd (dropWhile ?P (rev cs)) = CHR ''.''"
    using hd_dropWhile [of ?P "rev cs"] by simp
  with ne have "dropWhile ?P (rev cs) = CHR ''.'' # rev m"
    by (cases "dropWhile ?P (rev cs)") (simp_all add: m)
  with takeWhile_dropWhile_id [of ?P "rev cs"] have "rev cs = rev f @ CHR ''.'' # rev m"
    by (simp add: f)
  then have "rev (rev cs) = rev (rev f @ CHR ''.'' # rev m)" by simp
  then show "m @ ''.'' @ f = cs" by simp
  show "CHR ''.'' \<notin> set f"
    using set_takeWhileD [of "CHR ''.''" ?P "rev cs"] by (auto simp: f)
qed

lemma keyword_args_exact:
  assumes "keyword_args (PyDict kvs) = Inr kw"
  shows "map (\<lambda>(k, v). (PyStr k, v)) kw = kvs"
proof -
  have *: "list_all (\<lambda>kv. str_key kv \<noteq> None) xs \<Longrightarrow>
      map (\<lambda>(k, v). (PyStr k, v)) (map (\<lambda>kv. the (str_key kv)) xs) = xs" for xs
  proof (induction xs)
    case Nil
    show ?case by simp
  next
    case (Cons x xs)
    obtain k v where x: "x = (k, v)" by (cases x)
    with Cons.prems obtain s where "k = PyStr s" by (cases k) auto
    with Cons x show ?case by simp
  qed
  from assms have "list_all (\<lambda>kv. str_key kv \<noteq> None) kvs"
    and "kw = map (\<lambda>kv. the (str_key kv)) kvs"
    by (simp_all add: keyword_args_def split: if_splits)
  with * [of kvs] show ?thesis
    by simp
qed

text \<open>
  Claim C6. The pipe holds a complete bootstrap packet: \<^verbatim>\<open>pickle.load\<close> returns the list
  of a dict \<open>prep\<close>, a string \<open>spec\<close> and a dict \<open>kwargs\<close>. Then \<^verbatim>\<open>spawn_main\<close> sets
  \<^verbatim>\<open>sys.argv\<close> to the value under \<^verbatim>\<open>'sys.argv'\<close> in \<open>prep\<close> when there is one (state
  \<open>p1\<close>), cuts \<open>spec\<close> at its last dot into \<open>modname\<close> and \<open>funcname\<close>, imports
  \<open>modname\<close>, looks \<open>funcname\<close> up in the module, calls what it finds with the entries
  of \<open>kwargs\<close> as keyword arguments and with nothing else, and, when the call returns,
  exits with status 0 in the state that the call left.
\<close>

theorem spawn_main_runs_target:
  assumes "map_of (fds os) (open_handle pipe_handle ''rb'') = Some (PipeRead n)"
    and "load e (pipe_data os n) = Inr (PyList [PyDict prep, PyStr spec, PyDict kwargs])"
    and "p1 = (case map_of prep (PyStr ''sys.argv'') of Some v \<Rightarrow> p\<lparr>sys_argv := v\<rparr> | None \<Rightarrow> p)"
    and "rsplit_dot spec = [modname, funcname]"
    and "import_module rt modname p1 = Inr (module, p2)"
    and "module funcname = Some func"
    and "keyword_args (PyDict kwargs) = Inr kw"
    and "call rt func kw p2 = Inr (res, p3)"
  shows "spawn_main rt e os p pipe_handle = Exits 0 p3
       \<and> modname @ ''.'' @ funcname = spec \<and> CHR ''.'' \<notin> set funcname
       \<and> map (\<lambda>(k, v). (PyStr k, v)) kw = kwargs"
proof -
  have "prepare (PyDict prep) p = Inr p1"
    by (simp add: prepare_def assms(3) split: option.splits)
  moreover have "split_spec (PyStr spec) = Inr (modname, funcname)"
    by (simp add: split_spec_def assms(4))
  moreover have "unpack3 (PyList [PyDict prep, PyStr spec, PyDict kwargs])
      = Inr (PyDict prep, PyStr spec, PyDict kwargs)"
    by (simp add: unpack3_def py_iter_def)
  ultimately have "spawn_main rt e os p pipe_handle = Exits 0 p3"
    using assms(1,2,5-8) by (simp add: spawn_main_def)
  with rsplit_dot_parts [OF assms(4)] keyword_args_exact [OF assms(7)] show ?thesis
    by simp
qed


lemma sample_spawn_main:
  "spawn_main sample_runtime boot_env worker_os worker_proc 3 =
     Exits 0 \<lparr>sys_argv = PyList [PyStr ''prog'', PyStr ''-v''],
              \<dots> = [(''pkg.mod.main'', [(''n'', PyInt 3)])]\<rparr>"
  by (simp add: spawn_main_def open_handle_def worker_os_def boot_env_def sample_packet_def
      unpack3_def py_iter_def prepare_def split_spec_def rsplit_dot_def sample_runtime_def
      keyword_args_def worker_proc_def)

theorem spawn_main_runs_target_witness:
  "map_of (fds worker_os) (open_handle 3 ''rb'') = Some (PipeRead 0)
   \<and> load boot_env (pipe_data worker_os 0) =
       Inr (PyList [PyDict [(PyStr ''sys.argv'', PyList [PyStr ''prog'', PyStr ''-v''])],
                    PyStr ''pkg.mod.main'', PyDict [(PyStr ''n'', PyInt 3)]])
   \<and> rsplit_dot ''pkg.mod.main'' = [''pkg.mod'', ''main'']
   \<and> keyword_args (PyDict [(PyStr ''n'', PyInt 3)]) = Inr [(''n'', PyInt 3)]
   \<and> spawn_main sample_runtime boot_env worker_os worker_proc 3 =
       Exits 0 \<lparr>sys_argv = PyList [PyStr ''prog'', PyStr ''-v''],
                \<dots> = [(''pkg.mod.main'', [(''n'', PyInt 3)])]\<rparr>"
proof -
  let ?p1 = "worker_proc\<lparr>sys_argv := PyList [PyStr ''prog'', PyStr ''-v'']\<rparr>"
  let ?module = "\<lambda>a. if a = ''main'' then Some ''pkg.mod.main'' else None"
  have h1: "map_of (fds worker_os) (open_handle 3 ''rb'') = Some (PipeRead 0)"
    by (simp add: worker_os_def open_handle_def)
  have h2: "load boot_env (pipe_data worker_os 0) =
       Inr (PyList [PyDict [(PyStr ''sys.argv'', PyList [PyStr ''prog'', PyStr ''-v''])],
                    PyStr ''pkg.mod.main'', PyDict [(PyStr ''n'', PyInt 3)]])"
    by (simp add: worker_os_def boot_env_def sample_packet_def)
  have h3: "?p1 = (case map_of [(PyStr ''sys.argv'', PyList [PyStr ''prog'', PyStr ''-v''])]
                          (PyStr ''sys.argv'') of
                     Some v \<Rightarrow> worker_proc\<lparr>sys_argv := v\<rparr> | None \<Rightarrow> worker_proc)"
    by simp
  have h4: "rsplit_dot ''pkg.mod.main'' = [''pkg.mod'', ''main'']"
    by (simp add: rsplit_dot_def)
  have h5: "import_module sample_runtime ''pkg.mod'' ?p1 = Inr (?module, ?p1)"
    by (simp add: sample_runtime_def)
  have h6: "?module ''main'' = Some ''pkg.mod.main''"
    by simp
  have h7: "keyword_args (PyDict [(PyStr ''n'', PyInt 3)]) = Inr [(''n'', PyInt 3)]"
    by (simp add: keyword_args_def)
  have h8: "call sample_runtime ''pkg.mod.main'' [(''n'', PyInt 3)] ?p1 =
      Inr (PyNone, \<lparr>sys_argv = PyList [PyStr ''prog'', PyStr ''-v''],
                    \<dots> = [(''pkg.mod.main'', [(''n'', PyInt 3)])]\<rparr>)"
    by (simp add: sample_runtime_def worker_proc_def)
  from spawn_main_runs_target [OF h1 h2 h3 h4 h5 h6 h7 h8] h1 h2 h4 h7
  show ?thesis by simp
qed

section \<open>The bootstrap packet on the wire\<close>

lemma set_inheritable_all_frame:
  assumes "set_inheritable_all xs os = Inr os'"
  shows "fds os' = fds os \<and> pipe_data os' = pipe_data os \<and> next_pipe os' = next_pipe os"
  using assms
proof (induction xs arbitrary: os)
  case Nil
  then show ?case by simp
next
  case (Cons x xs)
  then obtain os1 where s1: "set_inheritable x os = Inr os1"
    and rest: "set_inheritable_all xs os1 = Inr os'"
    by (auto split: sum.splits)
  from s1 have "fds os1 = fds os \<and> pipe_data os1 = pipe_data os \<and> next_pipe os1 = next_pipe os"
    by (auto simp: set_inheritable_def split: if_splits)
  with Cons.IH [OF rest] show ?case by simp
qed

lemma spawn_main_reads_by_load:
  assumes "map_of (fds os1) (open_handle h ''rb'') = Some (PipeRead n1)"
    and "map_of (fds os2) (open_handle h ''rb'') = Some (PipeRead n2)"
    and "load e (pipe_data os1 n1) = load e (pipe_data os2 n2)"
  shows "spawn_main rt e os1 q h = spawn_main rt e os2 q h"
  using assms by (simp add: spawn_main_def)

text \<open>
  Claim C3, as amended. When \<^verbatim>\<open>spawn\<close> returns, the bootstrap pipe, a new one, holds
  the bytes of \<^verbatim>\<open>pickle.dumps([preparation_data, spec, kwargs])\<close> and nothing before or
  after them, its read end is open under the descriptor handed to the worker, and the
  descriptor of its write end has been closed. \<^verbatim>\<open>spawn_main\<close> applies \<^verbatim>\<open>pickle.load\<close> to the pipe as it is: on any pipe whose bytes
  \<^verbatim>\<open>pickle.load\<close> reads to the same result it behaves as on this one.
\<close>

theorem bootstrap_packet_is_bare_pickle:
  assumes "spawn e Popen p os spec kwargs pass_fds = Inr (process, os')"
  shows "dumps e (PyList [get_preparation_data p, spec, kwargs])
           = Inr (pipe_data os' (next_pipe os))
       \<and> map_of (fds os') (lowest_free (map fst (fds os))) = Some (PipeRead (next_pipe os))
       \<and> lowest_free (lowest_free (map fst (fds os)) # map fst (fds os))
           \<notin> fst ` set (fds os')
       \<and> (map_of (fds os2) (open_handle h ''rb'') = Some (PipeRead n2) \<longrightarrow>
          load e (pipe_data os2 n2) = load e (pipe_data os' (next_pipe os)) \<longrightarrow>
          spawn_main rt e os2 q h
            = spawn_main rt e os' q (get_handle (lowest_free (map fst (fds os)))))"
proof -
  from assms obtain r w os1 os2' data os3 where
    pipe: "os_pipe os = Inr ((r, w), os1)" and
    inh: "set_inheritable_all ([r] @ pass_fds) os1 = Inr os2'" and
    data: "dumps e (PyList [get_preparation_data p, spec, kwargs]) = Inr data" and
    wr: "os_write w data os2' = Inr os3" and
    cl: "os_close w os3 = Inr os'"
    by (auto simp: spawn_def Let_def split: sum.splits prod.splits)
  note a = os_pipe_result [OF pipe]
  from pipe have r: "r = lowest_free (map fst (fds os))"
    and w: "w = lowest_free (lowest_free (map fst (fds os)) # map fst (fds os))"
    and pd1: "pipe_data os1 (next_pipe os) = []"
    by (auto simp: os_pipe_def Let_def split: if_splits)
  from set_inheritable_all_frame [OF inh] a(4) pd1
  have f2: "fds os2' = (w, PipeWrite (next_pipe os)) # (r, PipeRead (next_pipe os)) # fds os"
    and pd2: "pipe_data os2' (next_pipe os) = []"
    by simp_all
  from wr f2 pd2 have f3: "fds os3 = fds os2'" and pd3: "pipe_data os3 (next_pipe os) = data"
    by (auto simp: os_write_def)
  from cl have f4: "fds os' = filter (\<lambda>(k, x). k \<noteq> w) (fds os3)"
    and pd4: "pipe_data os' = pipe_data os3"
    by (auto simp: os_close_def split: if_splits)
  from f4 f3 f2 a(3) have rd: "map_of (fds os') r = Some (PipeRead (next_pipe os))"
    by simp
  from f4 have closed: "w \<notin> fst ` set (fds os')"
    by auto
  from data pd3 pd4 have "dumps e (PyList [get_preparation_data p, spec, kwargs])
      = Inr (pipe_data os' (next_pipe os))"
    by simp
  moreover from rd have "map_of (fds os') (open_handle (get_handle r) ''rb'')
      = Some (PipeRead (next_pipe os))"
    by (simp add: open_handle_def get_handle_def)
  then have "map_of (fds os2) (open_handle h ''rb'') = Some (PipeRead n2) \<longrightarrow>
      load e (pipe_data os2 n2) = load e (pipe_data os' (next_pipe os)) \<longrightarrow>
      spawn_main rt e os2 q h = spawn_main rt e os' q (get_handle r)"
    by (simp add: spawn_main_def open_handle_def get_handle_def)
  ultimately show ?thesis
    using rd closed r w by simp
qed


lemma sample_spawn:
  "spawn boot_env sample_Popen sample_proc sample_os (PyStr ''pkg.mod.main'')
     (PyDict [(PyStr ''n'', PyInt 3)]) [] = Inr (3, worker_os)"
  by (simp add: spawn_def os_pipe_def Let_def lowest_free_def sample_os_def
      set_inheritable_def get_preparation_data_def sample_proc_def get_handle_def
      sample_Popen_def boot_env_def sample_packet_def os_write_def os_close_def worker_os_def)

theorem bootstrap_packet_is_bare_pickle_witness:
  "spawn boot_env sample_Popen sample_proc sample_os (PyStr ''pkg.mod.main'')
     (PyDict [(PyStr ''n'', PyInt 3)]) [] = Inr (3, worker_os)
   \<and> dumps boot_env (PyList [get_preparation_data sample_proc, PyStr ''pkg.mod.main'',
                              PyDict [(PyStr ''n'', PyInt 3)]]) = Inr [128, 3, 46]
   \<and> pipe_data worker_os (next_pipe sample_os) = [128, 3, 46]
   \<and> map_of (fds worker_os) 3 = Some (PipeRead 0)
   \<and> 4 \<notin> fst ` set (fds worker_os)"
proof -
  have "pipe_data worker_os (next_pipe sample_os) = [128, 3, 46]"
    and "lowest_free (map fst (fds sample_os)) = 3"
    and "lowest_free (3 # map fst (fds sample_os)) = 4"
    and "next_pipe sample_os = 0"
    by (simp_all add: worker_os_def sample_os_def lowest_free_def)
  with bootstrap_packet_is_bare_pickle [OF sample_spawn, of worker_os 3 0 sample_runtime worker_proc]
    sample_spawn
  show ?thesis by simp
qed

text \<open>
  Claim C3, as stated, fails: the three bytes of the sample pickle are alone in the
  pipe, not behind the eight bytes that \<^verbatim>\<open>struct.pack('Q', 3)\<close> makes, and they are no
  frame for \<^verbatim>\<open>_recv_packet\<close>; \<^verbatim>\<open>spawn_main\<close> runs the target on them, and fails to
  unpickle the same bytes behind a length prefix.
\<close>

theorem bootstrap_packet_has_no_length_prefix_counterexample:
  "spawn boot_env sample_Popen sample_proc sample_os (PyStr ''pkg.mod.main'')
     (PyDict [(PyStr ''n'', PyInt 3)]) [] = Inr (3, worker_os)
   \<and> pipe_data worker_os 0 = [128, 3, 46]
   \<and> struct_pack_Q (sys_byteorder boot_env) (length [128, 3, 46 :: byte])
       = Inr [3, 0, 0, 0, 0, 0, 0, 0]
   \<and> recv_packet boot_env (pipe_data worker_os 0) = Inl StructError
   \<and> spawn_main sample_runtime boot_env worker_os worker_proc 3 =
       Exits 0 \<lparr>sys_argv = PyList [PyStr ''prog'', PyStr ''-v''],
                \<dots> = [(''pkg.mod.main'', [(''n'', PyInt 3)])]\<rparr>
   \<and> spawn_main sample_runtime boot_env
         (worker_os\<lparr>pipe_data := (\<lambda>p. [3, 0, 0, 0, 0, 0, 0, 0, 128, 3, 46])\<rparr>) worker_proc 3 =
       Uncaught UnpicklingError"
proof -
  have "pipe_data worker_os 0 = [128, 3, 46]"
    by (simp add: worker_os_def)
  moreover have "struct_pack_Q (sys_byteorder boot_env) (length [128, 3, 46 :: byte])
       = Inr [3, 0, 0, 0, 0, 0, 0, 0]"
    by (simp add: struct_pack_Q_def boot_env_def le_bytes_numeral)
  moreover have "recv_packet boot_env [128, 3, 46] = Inl StructError"
    by (simp add: recv_packet_def read_8 struct_unpack_Q_def)
  moreover have "spawn_main sample_runtime boot_env
         (worker_os\<lparr>pipe_data := (\<lambda>p. [3, 0, 0, 0, 0, 0, 0, 0, 128, 3, 46])\<rparr>) worker_proc 3 =
       Uncaught UnpicklingError"
    by (simp add: spawn_main_def open_handle_def worker_os_def boot_env_def)
  ultimately show ?thesis
    using sample_spawn sample_spawn_main by simp
qed

end
